theory Spec2Isabelle
  imports Complex_Main
begin

section \<open>Workflow state machine (src/workflows/state\_machine.py)\<close>

text \<open>
  The orchestrator keeps its states and transitions as Python literals whose keys and
  entries are plain ASCII stage names. The dictionary \<open>TRANSITIONS\<close> is modelled as the
  association list of its literal, looked up with \<open>map_of\<close>; the keys are distinct, so
  the lookup is the dictionary's.
\<close>

definition STATES :: "string list" where
  "STATES =
    [''PROVIDE_GREETING'',
     ''ASK_CLARIFYING_QUESTIONS'',
     ''CREATE_CONFIRMATION_PLAN'',
     ''GENERATE_STRAWMAN'',
     ''REFINE_STRAWMAN'',
     ''CONTENT_GENERATION'']"

definition TRANSITIONS :: "(string \<times> string list) list" where
  "TRANSITIONS =
    [(''PROVIDE_GREETING'', [''ASK_CLARIFYING_QUESTIONS'']),
     (''ASK_CLARIFYING_QUESTIONS'', [''CREATE_CONFIRMATION_PLAN'']),
     (''CREATE_CONFIRMATION_PLAN'',
        [''GENERATE_STRAWMAN'', ''ASK_CLARIFYING_QUESTIONS'', ''CREATE_CONFIRMATION_PLAN'']),
     (''GENERATE_STRAWMAN'', [''REFINE_STRAWMAN'', ''CONTENT_GENERATION'']),
     (''REFINE_STRAWMAN'', [''REFINE_STRAWMAN'', ''CONTENT_GENERATION'']),
     (''CONTENT_GENERATION'', [])]"

definition validate_state :: "string \<Rightarrow> bool" where
  "validate_state state = (state \<in> set STATES)"

text \<open>
  \<^verbatim>\<open>if from_state not in self.TRANSITIONS: return False\<close>
  \<^verbatim>\<open>return to_state in self.TRANSITIONS[from_state]\<close>
\<close>

definition validate_transition :: "string \<Rightarrow> string \<Rightarrow> bool" where
  "validate_transition from_state to_state =
     (case map_of TRANSITIONS from_state of
        None \<Rightarrow> False
      | Some targets \<Rightarrow> to_state \<in> set targets)"

text \<open>\<^verbatim>\<open>return self.TRANSITIONS.get(current_state, [])\<close>\<close>

definition get_next_states :: "string \<Rightarrow> string list" where
  "get_next_states current_state =
     (case map_of TRANSITIONS current_state of
        None \<Rightarrow> []
      | Some targets \<Rightarrow> targets)"

section \<open>Data model\<close>

text \<open>
  A Python string is a sequence of code points; \<open>u\<close> turns an ASCII literal into one.
  Dictionary keys, layout ids and stage names are ASCII identifiers and stay \<open>string\<close>s.
\<close>

type_synonym ustr = "nat list"

definition u :: "string \<Rightarrow> ustr" where
  "u s = map of_char s"

datatype py_error =
    KeyError string
  | IndexError
  | OverflowError
  | ValueError ustr
  | UnknownLayout string
  | ServiceError ustr

subsection \<open>Slides and presentations (src/models/agents.py and the enriched models)\<close>

datatype slide_type =
    title_slide
  | section_divider
  | content_heavy
  | visual_heavy
  | data_driven
  | diagram_focused
  | mixed_content
  | conclusion_slide

record slide =
  slide_number :: int
  slide_id :: ustr
  title :: ustr
  slide_type :: slide_type
  layout_id :: "string option"
  layout_selection_reasoning :: "ustr option"
  narrative :: ustr
  key_points :: "ustr list"
  analytics_needed :: "ustr option"
  visuals_needed :: "ustr option"
  diagrams_needed :: "ustr option"
  tables_needed :: "ustr option"
  structure_preference :: "ustr option"
  speaker_notes :: "ustr option"

record presentation_strawman =
  main_title :: ustr
  overall_theme :: ustr
  slides :: "slide list"
  design_suggestions :: ustr
  target_audience :: ustr
  presentation_duration :: int

text \<open>
  JSON values, as the text service returns them and as the payload for the deck builder
  holds them. A dictionary that the code builds or receives at the top level is a map
  from its keys; nested ones are association lists.
\<close>

datatype jval =
    JStr ustr
  | JInt int
  | JBool bool
  | JNull
  | JList "jval list"
  | JObj "(string \<times> jval) list"

text \<open>
  \<^verbatim>\<open>generated_text.content\<close> is either a dictionary (structured content, for which
  \<^verbatim>\<open>_is_structured_content\<close> is \<^verbatim>\<open>isinstance(content, dict)\<close>) or a string (legacy content).
\<close>

datatype gen_content =
    Structured "string \<rightharpoonup> jval"
  | Legacy ustr

fun is_structured_content :: "gen_content \<Rightarrow> bool" where
  "is_structured_content (Structured d) = True"
| "is_structured_content (Legacy s) = False"

record generated_text =
  content :: gen_content
  metadata :: "(string \<times> jval) list"

record enriched_slide =
  original_slide :: slide
  enriched_slide_id :: ustr
  generated_text :: "generated_text option"
  has_text_failure :: bool

record generation_metadata =
  total_slides :: nat
  successful_slides :: nat
  failed_slides :: nat
  generation_time_seconds :: rat
  timestamp :: ustr
  service_used :: ustr

record enriched_presentation_strawman =
  original_strawman :: presentation_strawman
  enriched_slides :: "enriched_slide list"
  generation_metadata :: generation_metadata

text \<open>
  A layout's content schema maps a field name to the field's specification, itself a
  dictionary; the transformer reads only its integer entries \<^verbatim>\<open>max_chars\<close>,
  \<^verbatim>\<open>max_items\<close> and \<^verbatim>\<open>max_chars_per_item\<close>. \<^verbatim>\<open>fields[name][key]\<close> raises
  \<^verbatim>\<open>KeyError\<close> when either key is missing.
\<close>

type_synonym field_spec = "string \<rightharpoonup> int"

type_synonym content_schema = "string \<rightharpoonup> field_spec"

text \<open>The payload of one slide, \<^verbatim>\<open>{"layout": layout_id, "content": content}\<close>.\<close>

record transformed_slide =
  layout :: string
  slide_content :: "string \<rightharpoonup> jval"

record deck_payload =
  payload_title :: ustr
  payload_slides :: "transformed_slide list"

subsection \<open>The collaborators of the director (src/agents/director.py)\<close>

text \<open>
  Modelled from the spec: the type \<^verbatim>\<open>LayoutSelection\<close> (src/models/layout\_selection.py) is
  not among the sources. The contract of \<open>select_layout\<close> returns
  \<^verbatim>\<open>{layout_id, reasoning, confidence}\<close>, the three fields that the constructor calls of the
  director set. The confidences \<^verbatim>\<open>1.0\<close> and \<^verbatim>\<open>0.5\<close> are exact as rationals.
\<close>

record layout_selection =
  chosen_layout_id :: string
  reasoning :: ustr
  confidence :: rat

text \<open>
  The layout-schema manager, the language model behind \<^verbatim>\<open>strawman_agent\<close>, the
  deck-builder client and the clock are not among the sources (the text-service client
  is, and ends in an HTTP request). They are parameters of the model, the fields of an
  environment:

  \<^item> the two switches \<^verbatim>\<open>text_service_enabled\<close> and \<^verbatim>\<open>deck_builder_enabled\<close>;
  \<^item> \<^verbatim>\<open>layout_schema_manager.format_layout_options_for_ai(exclude_layout_ids=...)\<close>, which
    may raise;
  \<^item> \<^verbatim>\<open>strawman_agent.run(prompt, result_type=LayoutSelection, ...)\<close>, which returns a selection
    or raises an exception \<open>e\<close>, given by \<^verbatim>\<open>str(e)\<close>;
  \<^item> the text service: building the request for a layout (\<^verbatim>\<open>build_content_request\<close>), its
    conversion and \<^verbatim>\<open>text_client.generate\<close>, which returns a \<^verbatim>\<open>GeneratedText\<close> or raises;
  \<^item> the schema catalog and the date that \<open>transform_presentation\<close> reads;
  \<^item> \<^verbatim>\<open>deck_builder_client.create_presentation(api_payload)\<close>, which returns the response
    dictionary or raises; its first argument counts the calls made before, so that the
    service may answer two calls differently;
  \<^item> \<^verbatim>\<open>deck_builder_client.get_full_url\<close>;
  \<^item> the elapsed time and the time stamp read from \<^verbatim>\<open>datetime.utcnow()\<close>.

  \<open>ServiceError msg\<close> stands for a plain \<^verbatim>\<open>Exception(msg)\<close>.
\<close>

record director_env =
  text_service_enabled :: bool
  deck_builder_enabled :: bool
  format_layout_options_for_ai :: "string list \<Rightarrow> py_error + ustr"
  strawman_agent_run :: "ustr \<Rightarrow> ustr + layout_selection"
  text_service_generate ::
    "string \<Rightarrow> slide \<Rightarrow> presentation_strawman \<Rightarrow> ustr \<Rightarrow> nat \<Rightarrow> py_error + generated_text"
  schema_catalog :: "string \<rightharpoonup> content_schema"
  current_date :: ustr
  create_presentation :: "nat \<Rightarrow> deck_payload \<Rightarrow> py_error + (string \<rightharpoonup> ustr)"
  get_full_url :: "ustr \<Rightarrow> ustr"
  generation_time :: rat
  utcnow_isoformat :: ustr

section \<open>Text truncation (ContentTransformer.truncate)\<close>

text \<open>
  The slice \<^verbatim>\<open>xs[:n]\<close>: the first \<open>n\<close> elements, or for a negative \<open>n\<close> all but the last
  \<open>-n\<close>.
\<close>

definition slice_to :: "'a list \<Rightarrow> int \<Rightarrow> 'a list" where
  "slice_to xs n =
     (if 0 \<le> n then take (nat n) xs else take (nat (int (length xs) + n)) xs)"

text \<open>
  \<^verbatim>\<open>s.rfind(sub)\<close>: the highest index at which \<open>sub\<close> occurs in \<open>s\<close>, or \<open>-1\<close>; the
  search runs down from the end.
\<close>

definition occurs_at :: "'a list \<Rightarrow> 'a list \<Rightarrow> nat \<Rightarrow> bool" where
  "occurs_at s sub i = (i + length sub \<le> length s \<and> take (length sub) (drop i s) = sub)"

fun rfind_from :: "'a list \<Rightarrow> 'a list \<Rightarrow> nat \<Rightarrow> int" where
  "rfind_from s sub 0 = (if occurs_at s sub 0 then 0 else - 1)"
| "rfind_from s sub (Suc i) =
     (if occurs_at s sub (Suc i) then int (Suc i) else rfind_from s sub i)"

definition rfind :: "'a list \<Rightarrow> 'a list \<Rightarrow> int" where
  "rfind s sub = rfind_from s sub (length s)"

text \<open>
  \<^verbatim>\<open>max_chars * 0.7\<close> converts the integer to a double and multiplies two doubles, each
  step rounding to 53 significant bits, ties to even. \<open>round_to_double\<close> rounds a
  natural number that way. The literal \<^verbatim>\<open>0.7\<close> is the double \<open>double_0_7 / 2 ^ 52\<close>, so a
  product is kept as its numerator over \<open>2 ^ 52\<close>; rounding the numerator is rounding the
  product, the denominator being a power of two (the products here are far from the
  subnormal range). The conversion raises \<^verbatim>\<open>OverflowError\<close> for an integer that rounds to
  \<open>2 ^ 1024\<close> or more. \<open>int_gt_float i x\<close> is the comparison \<^verbatim>\<open>i > x\<close> of an integer with a
  double, which Python decides exactly.
\<close>

fun bit_length :: "nat \<Rightarrow> nat" where
  "bit_length n = (if n = 0 then 0 else Suc (bit_length (n div 2)))"

declare bit_length.simps [simp del]

definition round_to_double :: "nat \<Rightarrow> nat" where
  "round_to_double p =
     (let s = bit_length p - 53; q = p div 2 ^ s; r = p mod 2 ^ s
      in if 2 ^ s < 2 * r \<or> (2 * r = 2 ^ s \<and> odd q) then (q + 1) * 2 ^ s else q * 2 ^ s)"

definition float_of_int :: "int \<Rightarrow> py_error + int" where
  "float_of_int n =
     (let m = round_to_double (nat \<bar>n\<bar>)
      in if 2 ^ 1024 \<le> m then Inl OverflowError else Inr (sgn n * int m))"

definition double_0_7 :: nat where
  "double_0_7 = 3152519739159347"

definition mul_0_7 :: "int \<Rightarrow> py_error + int" where
  "mul_0_7 n =
     (case float_of_int n of
        Inl e \<Rightarrow> Inl e
      | Inr f \<Rightarrow> Inr (sgn f * int (round_to_double (nat \<bar>f\<bar> * double_0_7))))"

definition int_gt_float :: "int \<Rightarrow> int \<Rightarrow> bool" where
  "int_gt_float i x = (x < i * 2 ^ 52)"

text \<open>
  The loop \<^verbatim>\<open>for delimiter in ['. ', '! ', '? ']\<close> of \<^verbatim>\<open>truncate\<close>:
  \<^verbatim>\<open>last_delimiter = truncated.rfind(delimiter)\<close>, and
  \<^verbatim>\<open>if last_delimiter > max_chars * 0.7: return truncated[:last_delimiter + 1]\<close>.
  \<open>None\<close> stands for a loop that ended without returning.
\<close>

fun sentence_cut :: "ustr \<Rightarrow> int \<Rightarrow> ustr list \<Rightarrow> py_error + ustr option" where
  "sentence_cut truncated max_chars [] = Inr None"
| "sentence_cut truncated max_chars (delimiter # rest) =
     (let last_delimiter = rfind truncated delimiter
      in case mul_0_7 max_chars of
           Inl e \<Rightarrow> Inl e
         | Inr x \<Rightarrow>
             if int_gt_float last_delimiter x
             then Inr (Some (slice_to truncated (last_delimiter + 1)))
             else sentence_cut truncated max_chars rest)"

text \<open>
  \<^verbatim>\<open>truncate(text, max_chars, add_ellipsis=False)\<close>: the empty text and a text within the
  budget are returned as they are; otherwise the sentence loop, then
  \<^verbatim>\<open>last_space = truncated.rfind(' ')\<close> with \<^verbatim>\<open>if last_space > 0\<close>, then the hard cut.
\<close>

definition truncate :: "ustr \<Rightarrow> int \<Rightarrow> bool \<Rightarrow> py_error + ustr" where
  "truncate text max_chars add_ellipsis =
     (if text = [] then Inr []
      else if int (length text) \<le> max_chars then Inr text
      else
        let truncated = slice_to text max_chars
        in case sentence_cut truncated max_chars [u ''. '', u ''! '', u ''? ''] of
             Inl e \<Rightarrow> Inl e
           | Inr (Some res) \<Rightarrow> Inr res
           | Inr None \<Rightarrow>
               let last_space = rfind truncated (u '' '')
               in if 0 < last_space
                  then Inr (slice_to truncated last_space @ (if add_ellipsis then u ''...'' else []))
                  else Inr (truncated @ (if add_ellipsis then u ''...'' else [])))"

text \<open>The code points for which \<^verbatim>\<open>str.isspace\<close> holds.\<close>

definition py_isspace :: "nat \<Rightarrow> bool" where
  "py_isspace c =
     ((9 \<le> c \<and> c \<le> 13) \<or> (28 \<le> c \<and> c \<le> 32) \<or> c = 133 \<or> c = 160 \<or> c = 5760
      \<or> (8192 \<le> c \<and> c \<le> 8202) \<or> c = 8232 \<or> c = 8233 \<or> c = 8239 \<or> c = 8287
      \<or> c = 12288)"

text \<open>
  The wording of the specification for \<open>truncate\<close>: "prefer cutting at the last
  sentence-ending punctuation found at or after 70 percent of \<open>max_chars\<close>; else cut at the
  last whitespace boundary; else hard-cut at \<open>max_chars\<close>".
\<close>

definition sentence_end_positions_spec :: "ustr \<Rightarrow> int \<Rightarrow> nat list" where
  "sentence_end_positions_spec t max_chars =
     filter (\<lambda>i. (occurs_at t (u ''. '') i \<or> occurs_at t (u ''! '') i \<or> occurs_at t (u ''? '') i)
                  \<and> 7 * max_chars \<le> 10 * int i) [0..<length t]"

definition whitespace_positions_spec :: "ustr \<Rightarrow> nat list" where
  "whitespace_positions_spec t = filter (\<lambda>i. py_isspace (t ! i)) [0..<length t]"

definition truncate_spec :: "ustr \<Rightarrow> int \<Rightarrow> bool \<Rightarrow> ustr" where
  "truncate_spec text max_chars add_ellipsis =
     (if int (length text) \<le> max_chars then text
      else
        let t = take (nat max_chars) text;
            ends = sentence_end_positions_spec t max_chars;
            spaces = whitespace_positions_spec t
        in if ends \<noteq> [] then take (Suc (last ends)) t
           else if spaces \<noteq> [] then take (last spaces) t @ (if add_ellipsis then u ''...'' else [])
           else t @ (if add_ellipsis then u ''...'' else []))"

text \<open>
  Notions used to state where \<open>truncate\<close> cuts: the last occurrence of a delimiter, and a
  last occurrence at an index that compares greater than the double \<open>x\<close>.
\<close>

definition last_index :: "'a list \<Rightarrow> 'a list \<Rightarrow> nat \<Rightarrow> bool" where
  "last_index s sub i = (occurs_at s sub i \<and> (\<forall>j. occurs_at s sub j \<longrightarrow> j \<le> i))"

definition sentence_end :: "ustr \<Rightarrow> int \<Rightarrow> ustr \<Rightarrow> nat \<Rightarrow> bool" where
  "sentence_end t x d i = (last_index t d i \<and> int_gt_float (int i) x)"

section \<open>Content transformer (src/utils/content\_transformer.py)\<close>

subsection \<open>Python string operations used by the transformer\<close>

text \<open>
  \<^verbatim>\<open>str.strip()\<close> removes the characters for which \<^verbatim>\<open>str.isspace\<close> holds from both ends;
  \<^verbatim>\<open>s.startswith(p)\<close>; \<^verbatim>\<open>sub in s\<close> and \<^verbatim>\<open>s.find(sub)\<close> (first occurrence, scanning from
  the left); \<^verbatim>\<open>s.split(sep)\<close> and \<^verbatim>\<open>s.split(sep, 1)\<close> for a non-empty separator;
  \<^verbatim>\<open>sep.join(xs)\<close>; and \<^verbatim>\<open>str(n)\<close> for a non-negative integer, as in \<^verbatim>\<open>f"Step {idx + 1}"\<close>.
\<close>

definition strip :: "ustr \<Rightarrow> ustr" where
  "strip s = rev (dropWhile py_isspace (rev (dropWhile py_isspace s)))"

definition startswith :: "'a list \<Rightarrow> 'a list \<Rightarrow> bool" where
  "startswith s p = (take (length p) s = p)"

fun find_from :: "'a list \<Rightarrow> 'a list \<Rightarrow> nat \<Rightarrow> nat option" where
  "find_from [] sub i = (if sub = [] then Some i else None)"
| "find_from (c # cs) sub i =
     (if startswith (c # cs) sub then Some i else find_from cs sub (Suc i))"

definition py_in :: "'a list \<Rightarrow> 'a list \<Rightarrow> bool" where
  "py_in sub s = (find_from s sub 0 \<noteq> None)"

definition split1 :: "'a list \<Rightarrow> 'a list \<Rightarrow> 'a list list" where
  "split1 s sep =
     (case find_from s sep 0 of
        None \<Rightarrow> [s]
      | Some i \<Rightarrow> [take i s, drop (i + length sep) s])"

fun split_scan :: "'a list \<Rightarrow> 'a list \<Rightarrow> nat \<Rightarrow> 'a list \<Rightarrow> 'a list list" where
  "split_scan sep [] skip cur = [rev cur]"
| "split_scan sep (c # cs) (Suc k) cur = split_scan sep cs k cur"
| "split_scan sep (c # cs) 0 cur =
     (if startswith (c # cs) sep
      then rev cur # split_scan sep cs (length sep - 1) []
      else split_scan sep cs 0 (c # cur))"

definition py_split :: "'a list \<Rightarrow> 'a list \<Rightarrow> 'a list list" where
  "py_split s sep = split_scan sep s 0 []"

fun py_join :: "'a list \<Rightarrow> 'a list list \<Rightarrow> 'a list" where
  "py_join sep [] = []"
| "py_join sep [x] = x"
| "py_join sep (x # y # ys) = x @ sep @ py_join sep (y # ys)"

fun str_of_nat :: "nat \<Rightarrow> ustr" where
  "str_of_nat n = (if n < 10 then [48 + n] else str_of_nat (n div 10) @ [48 + n mod 10])"

declare str_of_nat.simps [simp del]

subsection \<open>Raising computations\<close>

definition bindE :: "'e + 'a \<Rightarrow> ('a \<Rightarrow> 'e + 'b) \<Rightarrow> 'e + 'b" where
  "bindE m f = (case m of Inl e \<Rightarrow> Inl e | Inr v \<Rightarrow> f v)"

text \<open>A list comprehension whose body may raise: the first failure ends it.\<close>

fun mapE :: "('a \<Rightarrow> 'e + 'b) \<Rightarrow> 'a list \<Rightarrow> 'e + 'b list" where
  "mapE f [] = Inr []"
| "mapE f (x # xs) = bindE (f x) (\<lambda>y. bindE (mapE f xs) (\<lambda>ys. Inr (y # ys)))"

definition field_limit :: "content_schema \<Rightarrow> string \<Rightarrow> string \<Rightarrow> py_error + int" where
  "field_limit flds name key =
     (case flds name of
        None \<Rightarrow> Inl (KeyError name)
      | Some spec \<Rightarrow> (case spec key of None \<Rightarrow> Inl (KeyError key) | Some v \<Rightarrow> Inr v))"

text \<open>
  \<^verbatim>\<open>self.truncate(text, fields[name]['max_chars'])\<close>: the limit is looked up, then the
  text is truncated with the default \<^verbatim>\<open>add_ellipsis=False\<close>.
\<close>

definition truncate_to :: "ustr \<Rightarrow> content_schema \<Rightarrow> string \<Rightarrow> py_error + ustr" where
  "truncate_to s flds name =
     bindE (field_limit flds name ''max_chars'') (\<lambda>limit. truncate s limit False)"

text \<open>
  The guard of every mapper,
  \<^verbatim>\<open>if enriched_slide and enriched_slide.generated_text and not enriched_slide.has_text_failure\<close>,
  followed by \<^verbatim>\<open>generated_content = enriched_slide.generated_text.content\<close>.
\<close>

definition usable_content :: "enriched_slide option \<Rightarrow> gen_content option" where
  "usable_content es =
     (case es of
        None \<Rightarrow> None
      | Some e \<Rightarrow>
          (case generated_text e of
             None \<Rightarrow> None
           | Some g \<Rightarrow> if has_text_failure e then None else Some (content g)))"

text \<open>\<^verbatim>\<open>d.get(key, default)\<close> on a structured content.\<close>

definition get_or :: "(string \<rightharpoonup> jval) \<Rightarrow> string \<Rightarrow> jval \<Rightarrow> jval" where
  "get_or d key dflt = (case d key of None \<Rightarrow> dflt | Some v \<Rightarrow> v)"

text \<open>
  \<^verbatim>\<open>if key in fields and key in generated_content: result[key] = generated_content[key]\<close>
\<close>

definition copy_if_both ::
  "content_schema \<Rightarrow> (string \<rightharpoonup> jval) \<Rightarrow> string \<Rightarrow> (string \<rightharpoonup> jval) \<Rightarrow> (string \<rightharpoonup> jval)" where
  "copy_if_both flds d key result =
     (case (flds key, d key) of
        (Some spec, Some v) \<Rightarrow> result(key \<mapsto> v)
      | _ \<Rightarrow> result)"

subsection \<open>Placeholders\<close>

definition generate_placeholder :: "ustr \<Rightarrow> ustr \<Rightarrow> ustr" where
  "generate_placeholder asset_description asset_type =
     (let full = u ''PLACEHOLDER_'' @ asset_type @ u '': '' @ asset_description
      in if py_in (u ''**Goal:**'') asset_description
         then (let parts = py_split asset_description (u ''**Content:**'')
               in case parts of
                    before # after # others \<Rightarrow>
                      (case py_split after (u ''**Style:**'') of
                         content_part # others' \<Rightarrow>
                           u ''PLACEHOLDER_'' @ asset_type @ u '': '' @ strip content_part
                       | [] \<Rightarrow> full)
                  | _ \<Rightarrow> full)
         else full)"

text \<open>
  Truthiness of an optional string: \<^verbatim>\<open>None\<close> and \<^verbatim>\<open>""\<close> are false, so
  \<^verbatim>\<open>if slide.visuals_needed:\<close> selects a non-empty description.
\<close>

definition nonempty :: "ustr option \<Rightarrow> ustr option" where
  "nonempty x = (case x of None \<Rightarrow> None | Some v \<Rightarrow> if v = [] then None else Some v)"

subsection \<open>Legacy parsing of list-shaped fields\<close>

text \<open>
  \<^verbatim>\<open>for marker in [...]: if line.startswith(marker): line = line[1:].strip(); break\<close>
  The four markers are the bullet U+2022, the hyphen U+002D, the asterisk U+002A and the
  en dash U+2013.
\<close>

definition bullet_markers :: "ustr list" where
  "bullet_markers = [[8226], [45], [42], [8211]]"

fun strip_marker :: "ustr \<Rightarrow> ustr list \<Rightarrow> ustr" where
  "strip_marker line [] = line"
| "strip_marker line (marker # markers) =
     (if startswith line marker then strip (drop 1 line) else strip_marker line markers)"

text \<open>
  The loop over \<^verbatim>\<open>generated_content.split('\n')\<close> that fills \<^verbatim>\<open>bullets\<close> (and \<^verbatim>\<open>insights\<close>):
  a line is stripped, loses one leading marker, and is kept when
  \<^verbatim>\<open>line and len(line) > 10\<close>; the loop breaks once \<^verbatim>\<open>len(bullets) >= max_items\<close>.
\<close>

fun parse_lines :: "ustr list \<Rightarrow> int \<Rightarrow> int \<Rightarrow> ustr list \<Rightarrow> py_error + ustr list" where
  "parse_lines [] max_items limit bullets = Inr bullets"
| "parse_lines (raw # rest) max_items limit bullets =
     (let line = strip_marker (strip raw) bullet_markers
      in if line \<noteq> [] \<and> 10 < length line
         then bindE (truncate line limit False) (\<lambda>t.
                if max_items \<le> int (length (bullets @ [t])) then Inr (bullets @ [t])
                else parse_lines rest max_items limit (bullets @ [t]))
         else parse_lines rest max_items limit bullets)"

text \<open>\<^verbatim>\<open>[self.truncate(point, max_chars) for point in slide.key_points[:max_items]]\<close>\<close>

definition key_point_bullets :: "slide \<Rightarrow> int \<Rightarrow> int \<Rightarrow> py_error + ustr list" where
  "key_point_bullets s max_items limit =
     mapE (\<lambda>point. truncate point limit False) (slice_to (key_points s) max_items)"

text \<open>
  The legacy branch of the bullet mappers: parse, and fall back to the key points when
  fewer than two bullets came out.
\<close>

definition legacy_bullets :: "ustr \<Rightarrow> slide \<Rightarrow> int \<Rightarrow> int \<Rightarrow> py_error + ustr list" where
  "legacy_bullets generated s max_items limit =
     bindE (parse_lines (py_split generated [10]) max_items limit []) (\<lambda>bullets.
       if length bullets < 2 then key_point_bullets s max_items limit else Inr bullets)"

definition step_title :: "nat \<Rightarrow> ustr" where
  "step_title idx = u ''Step '' @ str_of_nat (idx + 1)"

definition numbered_item :: "ustr \<Rightarrow> ustr \<Rightarrow> py_error + jval" where
  "numbered_item title_part description_part =
     bindE (truncate title_part 40 False) (\<lambda>t.
     bindE (truncate description_part 150 False) (\<lambda>d.
       Inr (JObj [(''title'', JStr t), (''description'', JStr d)])))"

text \<open>
  One line of the legacy numbered list. \<^verbatim>\<open>title, description = line.split(':', 1)\<close>
  unpacks a list of exactly two parts (anything else raises \<^verbatim>\<open>ValueError\<close>).
\<close>

definition unpack2 :: "ustr list \<Rightarrow> py_error + ustr \<times> ustr" where
  "unpack2 parts =
     (case parts of
        [a, b] \<Rightarrow> Inr (a, b)
      | _ \<Rightarrow> Inl (ValueError (u ''not enough values to unpack'')))"

definition parse_numbered_line :: "nat \<Rightarrow> ustr \<Rightarrow> nat \<Rightarrow> py_error + jval" where
  "parse_numbered_line idx line n_lines =
     (if py_in (u '':'') line
      then bindE (unpack2 (split1 line (u '':''))) (\<lambda>(title_part, description_part).
             numbered_item (strip title_part) (strip description_part))
      else if py_in (u ''.'') line \<and> idx < n_lines
      then (let parts = split1 line (u ''.'')
            in if 1 < length parts
               then (let title_desc = strip (parts ! 1)
                     in if py_in (u ''-'') title_desc
                        then bindE (unpack2 (split1 title_desc (u ''-'')))
                               (\<lambda>(title_part, description_part).
                                  numbered_item (strip title_part) (strip description_part))
                        else numbered_item (strip (step_title idx)) (strip title_desc))
               else numbered_item (strip (step_title idx)) (strip line))
      else numbered_item (strip (step_title idx)) (strip line))"

fun parse_numbered :: "nat \<Rightarrow> ustr list \<Rightarrow> nat \<Rightarrow> py_error + jval list" where
  "parse_numbered idx [] n_lines = Inr []"
| "parse_numbered idx (line # rest) n_lines =
     bindE (parse_numbered_line idx line n_lines) (\<lambda>item.
     bindE (parse_numbered (Suc idx) rest n_lines) (\<lambda>items. Inr (item # items)))"

text \<open>The placeholder loop over \<^verbatim>\<open>enumerate(slide.key_points[:max_items])\<close>.\<close>

definition key_point_item :: "nat \<Rightarrow> ustr \<Rightarrow> py_error + jval" where
  "key_point_item idx point =
     (if py_in (u '':'') point
      then bindE (unpack2 (split1 point (u '':''))) (\<lambda>(title_part, description_part).
             numbered_item title_part description_part)
      else numbered_item (step_title idx) point)"

fun key_point_items :: "nat \<Rightarrow> ustr list \<Rightarrow> py_error + jval list" where
  "key_point_items idx [] = Inr []"
| "key_point_items idx (point # rest) =
     bindE (key_point_item idx point) (\<lambda>item.
     bindE (key_point_items (Suc idx) rest) (\<lambda>items. Inr (item # items)))"

definition nonblank_lines :: "ustr \<Rightarrow> ustr list" where
  "nonblank_lines generated =
     map strip (filter (\<lambda>line. strip line \<noteq> []) (py_split generated [10]))"

definition legacy_numbered_items :: "ustr \<Rightarrow> slide \<Rightarrow> int \<Rightarrow> py_error + jval list" where
  "legacy_numbered_items generated s max_items =
     (let lines = nonblank_lines generated
      in bindE (parse_numbered 0 (slice_to lines max_items) (length lines)) (\<lambda>numbered_items.
           if length numbered_items < 2
           then key_point_items 0 (slice_to (key_points s) max_items)
           else Inr numbered_items))"

subsection \<open>The layout mappers\<close>

text \<open>
  \<^verbatim>\<open>_map_title_slide\<close> (L01). The date \<^verbatim>\<open>datetime.now().strftime("%Y-%m-%d")\<close> is an input
  \<open>today\<close> of the model.
\<close>

definition map_title_slide ::
  "slide \<Rightarrow> content_schema \<Rightarrow> presentation_strawman \<Rightarrow> enriched_slide option \<Rightarrow> ustr
   \<Rightarrow> py_error + (string \<rightharpoonup> jval)" where
  "map_title_slide s flds presentation enriched today =
     bindE (truncate_to (main_title presentation) flds ''main_title'') (\<lambda>t.
     bindE (truncate_to (if narrative s \<noteq> [] then narrative s else overall_theme presentation)
              flds ''subtitle'') (\<lambda>sub.
     bindE (truncate_to (target_audience presentation) flds ''organization'') (\<lambda>org.
       Inr (map_of
         [(''main_title'', JStr t),
          (''subtitle'', JStr sub),
          (''presenter_name'', JStr (u ''AI-Generated Presentation'')),
          (''organization'', JStr org),
          (''date'', JStr today)]))))"

text \<open>\<^verbatim>\<open>_map_section_divider\<close> (L02).\<close>

definition map_section_divider ::
  "slide \<Rightarrow> content_schema \<Rightarrow> presentation_strawman \<Rightarrow> enriched_slide option
   \<Rightarrow> py_error + (string \<rightharpoonup> jval)" where
  "map_section_divider s flds presentation enriched =
     bindE (truncate_to (title s) flds ''section_title'') (\<lambda>t.
       Inr (map_of [(''section_title'', JStr t)]))"

text \<open>\<^verbatim>\<open>_map_closing_slide\<close> (L03).\<close>

definition map_closing_slide ::
  "slide \<Rightarrow> content_schema \<Rightarrow> presentation_strawman \<Rightarrow> enriched_slide option
   \<Rightarrow> py_error + (string \<rightharpoonup> jval)" where
  "map_closing_slide s flds presentation enriched =
     bindE (truncate_to (if title s \<noteq> [] then title s else u ''Thank You'')
              flds ''closing_message'') (\<lambda>msg.
     bindE (truncate_to (if narrative s \<noteq> [] then narrative s else u ''Questions & Discussion'')
              flds ''subtitle'') (\<lambda>sub.
       Inr (map_of
         [(''closing_message'', JStr msg),
          (''subtitle'', JStr sub),
          (''contact_email'', JStr (u ''contact@example.com'')),
          (''website'', JStr (u ''www.example.com'')),
          (''social_media'', JStr (u ''@example''))])))"

text \<open>
  The placeholder text of L04 and L10:
  \<^verbatim>\<open>text = slide.narrative; if slide.key_points: text += "\n\n" + "\n\n".join(slide.key_points)\<close>
\<close>

definition narrative_with_points :: "slide \<Rightarrow> ustr" where
  "narrative_with_points s =
     (if key_points s \<noteq> []
      then narrative s @ [10, 10] @ py_join [10, 10] (key_points s)
      else narrative s)"

text \<open>\<^verbatim>\<open>slide.key_points[-1] if slide.key_points else slide.narrative[:200]\<close>\<close>

definition summary_source :: "slide \<Rightarrow> ustr" where
  "summary_source s =
     (if key_points s \<noteq> [] then last (key_points s) else slice_to (narrative s) 200)"

text \<open>\<^verbatim>\<open>_map_text_summary\<close> (L04).\<close>

definition map_text_summary ::
  "slide \<Rightarrow> content_schema \<Rightarrow> presentation_strawman \<Rightarrow> enriched_slide option
   \<Rightarrow> py_error + (string \<rightharpoonup> jval)" where
  "map_text_summary s flds presentation enriched =
     (case usable_content enriched of
        Some (Structured d) \<Rightarrow>
          Inr (copy_if_both flds d ''summary'' (copy_if_both flds d ''subtitle''
            (map_of
              [(''slide_title'', get_or d ''slide_title'' (JStr (title s))),
               (''main_text_content'', get_or d ''main_text_content'' (JStr []))])))
      | other \<Rightarrow>
          (let main_text = (case other of Some (Legacy g) \<Rightarrow> g | _ \<Rightarrow> narrative_with_points s);
               summary = summary_source s
           in bindE (truncate_to (title s) flds ''slide_title'') (\<lambda>t.
              bindE (if flds ''subtitle'' \<noteq> None
                     then bindE (truncate_to (slice_to (narrative s) 80) flds ''subtitle'')
                            (\<lambda>v. Inr (JStr v))
                     else Inr JNull) (\<lambda>sub.
              bindE (truncate_to main_text flds ''main_text_content'') (\<lambda>body.
              bindE (if flds ''summary'' \<noteq> None
                     then bindE (truncate_to summary flds ''summary'') (\<lambda>v. Inr (JStr v))
                     else Inr JNull) (\<lambda>summ.
                Inr (map_of
                  [(''slide_title'', JStr t),
                   (''subtitle'', sub),
                   (''main_text_content'', JStr body),
                   (''summary'', summ)])))))))"

text \<open>
  The common tail of the list mappers:
  \<^verbatim>\<open>if 'subtitle' in fields: result["subtitle"] = self.truncate(slide.narrative, ...)\<close>
\<close>

definition with_subtitle ::
  "slide \<Rightarrow> content_schema \<Rightarrow> ustr \<Rightarrow> (string \<rightharpoonup> jval) \<Rightarrow> py_error + (string \<rightharpoonup> jval)" where
  "with_subtitle s flds source result =
     (if flds ''subtitle'' \<noteq> None
      then bindE (truncate_to source flds ''subtitle'') (\<lambda>sub.
             Inr (result(''subtitle'' \<mapsto> JStr sub)))
      else Inr result)"

text \<open>\<^verbatim>\<open>_map_bullet_list\<close> (L05).\<close>

definition map_bullet_list ::
  "slide \<Rightarrow> content_schema \<Rightarrow> presentation_strawman \<Rightarrow> enriched_slide option
   \<Rightarrow> py_error + (string \<rightharpoonup> jval)" where
  "map_bullet_list s flds presentation enriched =
     bindE (field_limit flds ''bullets'' ''max_items'') (\<lambda>max_items.
     bindE (field_limit flds ''bullets'' ''max_chars_per_item'') (\<lambda>limit.
       case usable_content enriched of
         Some (Structured d) \<Rightarrow>
           Inr (copy_if_both flds d ''subtitle''
             (map_of
               [(''slide_title'', get_or d ''slide_title'' (JStr (title s))),
                (''bullets'', get_or d ''bullets'' (JList []))]))
       | other \<Rightarrow>
           bindE (case other of
                    Some (Legacy g) \<Rightarrow> legacy_bullets g s max_items limit
                  | _ \<Rightarrow> key_point_bullets s max_items limit) (\<lambda>bullets.
           bindE (truncate_to (title s) flds ''slide_title'') (\<lambda>t.
             with_subtitle s flds (narrative s)
               (map_of
                 [(''slide_title'', JStr t),
                  (''bullets'', JList (map JStr bullets))])))))"

text \<open>\<^verbatim>\<open>_map_numbered_list\<close> (L06).\<close>

definition map_numbered_list ::
  "slide \<Rightarrow> content_schema \<Rightarrow> presentation_strawman \<Rightarrow> enriched_slide option
   \<Rightarrow> py_error + (string \<rightharpoonup> jval)" where
  "map_numbered_list s flds presentation enriched =
     bindE (field_limit flds ''numbered_items'' ''max_items'') (\<lambda>max_items.
       case usable_content enriched of
         Some (Structured d) \<Rightarrow>
           Inr (copy_if_both flds d ''subtitle''
             (map_of
               [(''slide_title'', get_or d ''slide_title'' (JStr (title s))),
                (''numbered_items'', get_or d ''numbered_items'' (JList []))]))
       | other \<Rightarrow>
           bindE (case other of
                    Some (Legacy g) \<Rightarrow> legacy_numbered_items g s max_items
                  | _ \<Rightarrow> key_point_items 0 (slice_to (key_points s) max_items))
             (\<lambda>numbered_items.
           bindE (truncate_to (title s) flds ''slide_title'') (\<lambda>t.
             with_subtitle s flds (narrative s)
               (map_of
                 [(''slide_title'', JStr t),
                  (''numbered_items'', JList numbered_items)]))))"

text \<open>\<^verbatim>\<open>_map_image_text\<close> (L10).\<close>

definition image_placeholder :: "slide \<Rightarrow> ustr" where
  "image_placeholder s =
     (case nonempty (visuals_needed s) of
        Some v \<Rightarrow> generate_placeholder v (u ''IMAGE'')
      | None \<Rightarrow>
          (case nonempty (diagrams_needed s) of
             Some v \<Rightarrow> generate_placeholder v (u ''DIAGRAM'')
           | None \<Rightarrow> u ''PLACEHOLDER: Professional image related to slide content''))"

definition map_image_text ::
  "slide \<Rightarrow> content_schema \<Rightarrow> presentation_strawman \<Rightarrow> enriched_slide option
   \<Rightarrow> py_error + (string \<rightharpoonup> jval)" where
  "map_image_text s flds presentation enriched =
     (case usable_content enriched of
        Some (Structured d) \<Rightarrow>
          Inr (copy_if_both flds d ''subtitle''
            (map_of
              [(''slide_title'', get_or d ''slide_title'' (JStr (title s))),
               (''image'', JStr (image_placeholder s)),
               (''text_content'', get_or d ''text_content'' (JStr []))]))
      | other \<Rightarrow>
          (let text_content = (case other of Some (Legacy g) \<Rightarrow> g | _ \<Rightarrow> narrative_with_points s)
           in bindE (truncate_to (title s) flds ''slide_title'') (\<lambda>t.
              bindE (truncate_to text_content flds ''text_content'') (\<lambda>body.
                with_subtitle s flds (slice_to (narrative s) 80)
                  (map_of
                    [(''slide_title'', JStr t),
                     (''image'', JStr (image_placeholder s)),
                     (''text_content'', JStr body)])))))"

text \<open>\<^verbatim>\<open>_map_chart_insights\<close> (L17).\<close>

definition chart_placeholder :: "slide \<Rightarrow> ustr" where
  "chart_placeholder s =
     (case nonempty (analytics_needed s) of
        Some v \<Rightarrow> generate_placeholder v (u ''CHART'')
      | None \<Rightarrow> u ''PLACEHOLDER: Data visualization for this slide'')"

definition map_chart_insights ::
  "slide \<Rightarrow> content_schema \<Rightarrow> presentation_strawman \<Rightarrow> enriched_slide option
   \<Rightarrow> py_error + (string \<rightharpoonup> jval)" where
  "map_chart_insights s flds presentation enriched =
     bindE (field_limit flds ''key_insights'' ''max_items'') (\<lambda>max_items.
     bindE (field_limit flds ''key_insights'' ''max_chars_per_item'') (\<lambda>limit.
       case usable_content enriched of
         Some (Structured d) \<Rightarrow>
           Inr (copy_if_both flds d ''summary'' (copy_if_both flds d ''subtitle''
             (map_of
               [(''slide_title'', get_or d ''slide_title'' (JStr (title s))),
                (''chart_url'', JStr (chart_placeholder s)),
                (''key_insights'', get_or d ''key_insights'' (JList []))])))
       | other \<Rightarrow>
           bindE (case other of
                    Some (Legacy g) \<Rightarrow> legacy_bullets g s max_items limit
                  | _ \<Rightarrow> key_point_bullets s max_items limit) (\<lambda>insights.
           bindE (truncate_to (title s) flds ''slide_title'') (\<lambda>t.
           bindE (with_subtitle s flds (narrative s)
                    (map_of
                      [(''slide_title'', JStr t),
                       (''chart_url'', JStr (chart_placeholder s)),
                       (''key_insights'', JList (map JStr insights))])) (\<lambda>result.
             if flds ''summary'' \<noteq> None
             then bindE (truncate_to (summary_source s) flds ''summary'') (\<lambda>summ.
                    Inr (result(''summary'' \<mapsto> JStr summ)))
             else Inr result)))))"

text \<open>
  \<^verbatim>\<open>_map_generic\<close>: structured content is returned as it is; otherwise whatever of
  \<^verbatim>\<open>slide_title\<close>, \<^verbatim>\<open>subtitle\<close> and \<^verbatim>\<open>bullets\<close> the schema defines is filled.
\<close>

definition map_generic ::
  "slide \<Rightarrow> content_schema \<Rightarrow> enriched_slide option \<Rightarrow> py_error + (string \<rightharpoonup> jval)" where
  "map_generic s flds enriched =
     (case usable_content enriched of
        Some (Structured d) \<Rightarrow> Inr d
      | other \<Rightarrow>
          bindE (if flds ''slide_title'' \<noteq> None
                 then bindE (truncate_to (title s) flds ''slide_title'') (\<lambda>t.
                        Inr (Map.empty(''slide_title'' \<mapsto> JStr t)))
                 else Inr Map.empty) (\<lambda>c1.
          bindE (with_subtitle s flds (narrative s) c1) (\<lambda>c2.
            if flds ''bullets'' \<noteq> None
            then bindE (field_limit flds ''bullets'' ''max_items'') (\<lambda>max_items.
                 bindE (field_limit flds ''bullets'' ''max_chars_per_item'') (\<lambda>limit.
                 bindE (case other of
                          Some (Legacy g) \<Rightarrow> legacy_bullets g s max_items limit
                        | _ \<Rightarrow> key_point_bullets s max_items limit) (\<lambda>bullets.
                   Inr (c2(''bullets'' \<mapsto> JList (map JStr bullets))))))
            else Inr c2)))"

subsection \<open>Dispatch and the presentation loop\<close>

text \<open>\<^verbatim>\<open>_map_content_to_layout\<close>: the mapper of the layout, or the generic one.\<close>

definition map_content_to_layout ::
  "slide \<Rightarrow> string \<Rightarrow> content_schema \<Rightarrow> presentation_strawman \<Rightarrow> enriched_slide option \<Rightarrow> ustr
   \<Rightarrow> py_error + (string \<rightharpoonup> jval)" where
  "map_content_to_layout s lid flds presentation enriched today =
     (if lid = ''L01'' then map_title_slide s flds presentation enriched today
      else if lid = ''L02'' then map_section_divider s flds presentation enriched
      else if lid = ''L03'' then map_closing_slide s flds presentation enriched
      else if lid = ''L04'' then map_text_summary s flds presentation enriched
      else if lid = ''L05'' then map_bullet_list s flds presentation enriched
      else if lid = ''L06'' then map_numbered_list s flds presentation enriched
      else if lid = ''L10'' then map_image_text s flds presentation enriched
      else if lid = ''L17'' then map_chart_insights s flds presentation enriched
      else map_generic s flds enriched)"

text \<open>
  Modelled from the spec: \<^verbatim>\<open>LayoutSchemaManager.get_schema\<close> is not among the sources.
  The catalog is a parameter, a map from a layout id to the layout's content schema, and a
  lookup of an unknown layout fails (\<open>schema_for\<close> "fails with UnknownLayout if not found").
\<close>

type_synonym layout_catalog = "string \<rightharpoonup> content_schema"

definition get_schema :: "layout_catalog \<Rightarrow> string \<Rightarrow> py_error + content_schema" where
  "get_schema catalog lid =
     (case catalog lid of None \<Rightarrow> Inl (UnknownLayout lid) | Some flds \<Rightarrow> Inr flds)"

definition transform_slide ::
  "layout_catalog \<Rightarrow> ustr \<Rightarrow> slide \<Rightarrow> string \<Rightarrow> presentation_strawman \<Rightarrow> enriched_slide option
   \<Rightarrow> py_error + transformed_slide" where
  "transform_slide catalog today s lid presentation enriched =
     bindE (get_schema catalog lid) (\<lambda>content_fields.
     bindE (map_content_to_layout s lid content_fields presentation enriched today) (\<lambda>c.
       Inr \<lparr>layout = lid, slide_content = c\<rparr>))"

text \<open>
  The fallback of \<^verbatim>\<open>transform_presentation\<close> for a slide without a layout
  (\<^verbatim>\<open>if not layout_id\<close>: \<^verbatim>\<open>None\<close> or the empty string).
\<close>

definition fallback_layout :: "nat \<Rightarrow> nat \<Rightarrow> slide \<Rightarrow> string" where
  "fallback_layout idx n_slides s =
     (if idx = 0 then ''L01''
      else if int idx = int n_slides - 1 then ''L03''
      else if slide_type s = section_divider then ''L02''
      else ''L05'')"

definition effective_layout :: "nat \<Rightarrow> nat \<Rightarrow> slide \<Rightarrow> string" where
  "effective_layout idx n_slides s =
     (case layout_id s of
        None \<Rightarrow> fallback_layout idx n_slides s
      | Some lid \<Rightarrow> if lid = [] then fallback_layout idx n_slides s else lid)"

text \<open>
  \<^verbatim>\<open>if enriched_data and enriched_data.enriched_slides: enriched_slide = enriched_data.enriched_slides[idx]\<close>
  raises \<^verbatim>\<open>IndexError\<close> when the list is too short.
\<close>

definition enriched_at :: "enriched_presentation_strawman option \<Rightarrow> nat \<Rightarrow> py_error + enriched_slide option" where
  "enriched_at enriched_data idx =
     (case enriched_data of
        None \<Rightarrow> Inr None
      | Some e \<Rightarrow>
          if enriched_slides e = [] then Inr None
          else if idx < length (enriched_slides e) then Inr (Some (enriched_slides e ! idx))
          else Inl IndexError)"

fun transform_slides ::
  "layout_catalog \<Rightarrow> ustr \<Rightarrow> presentation_strawman \<Rightarrow> enriched_presentation_strawman option
   \<Rightarrow> nat \<Rightarrow> slide list \<Rightarrow> py_error + transformed_slide list" where
  "transform_slides catalog today strawman enriched_data idx [] = Inr []"
| "transform_slides catalog today strawman enriched_data idx (s # rest) =
     bindE (enriched_at enriched_data idx) (\<lambda>enriched.
     bindE (transform_slide catalog today s
              (effective_layout idx (length (slides strawman)) s) strawman enriched) (\<lambda>t.
     bindE (transform_slides catalog today strawman enriched_data (Suc idx) rest) (\<lambda>ts.
       Inr (t # ts))))"

definition transform_presentation ::
  "layout_catalog \<Rightarrow> ustr \<Rightarrow> presentation_strawman \<Rightarrow> enriched_presentation_strawman option
   \<Rightarrow> py_error + deck_payload" where
  "transform_presentation catalog today strawman enriched_data =
     bindE (transform_slides catalog today strawman enriched_data 0 (slides strawman)) (\<lambda>ts.
       Inr \<lparr>payload_title = main_title strawman, payload_slides = ts\<rparr>)"

subsection \<open>Notions used to state the legacy parsing\<close>





text \<open>
  An item of the numbered list made of a title and a description: the two texts
  truncated to 40 and to 150 characters, the limits written in the mapper.
\<close>

definition capped_item :: "ustr \<times> ustr \<Rightarrow> jval \<Rightarrow> bool" where
  "capped_item td item =
     (case td of (t, d) \<Rightarrow>
        (case (truncate t 40 False, truncate d 150 False) of
           (Inr t', Inr d') \<Rightarrow>
              item = JObj [(''title'', JStr t'), (''description'', JStr d')]
              \<and> length t' \<le> 40 \<and> length d' \<le> 150
         | _ \<Rightarrow> False))"



subsection \<open>What the structured branches copy\<close>

text \<open>
  The mappers with a structured branch, the mappers with a layout of their own, and the
  fields each structured branch takes from the generated content (read off the mappers
  above). The list mappers look their limits up before they test for structured content,
  so they need them in the schema.
\<close>

definition structured_layouts :: "string list" where
  "structured_layouts = [''L04'', ''L05'', ''L06'', ''L10'', ''L17'']"

definition specific_layouts :: "string list" where
  "specific_layouts = [''L01'', ''L02'', ''L03'', ''L04'', ''L05'', ''L06'', ''L10'', ''L17'']"

definition passed_fields :: "string \<Rightarrow> string list" where
  "passed_fields lid =
     (if lid = ''L04'' then [''slide_title'', ''main_text_content'', ''subtitle'', ''summary'']
      else if lid = ''L05'' then [''slide_title'', ''bullets'', ''subtitle'']
      else if lid = ''L06'' then [''slide_title'', ''numbered_items'', ''subtitle'']
      else if lid = ''L10'' then [''slide_title'', ''text_content'', ''subtitle'']
      else if lid = ''L17'' then [''slide_title'', ''key_insights'', ''subtitle'', ''summary'']
      else [])"

definition has_limit :: "content_schema \<Rightarrow> string \<Rightarrow> string \<Rightarrow> bool" where
  "has_limit flds name key = (case flds name of None \<Rightarrow> False | Some spec \<Rightarrow> spec key \<noteq> None)"

definition list_limits_present :: "string \<Rightarrow> content_schema \<Rightarrow> bool" where
  "list_limits_present lid flds =
     (if lid = ''L05''
      then has_limit flds ''bullets'' ''max_items'' \<and> has_limit flds ''bullets'' ''max_chars_per_item''
      else if lid = ''L06'' then has_limit flds ''numbered_items'' ''max_items''
      else if lid = ''L17''
      then has_limit flds ''key_insights'' ''max_items''
           \<and> has_limit flds ''key_insights'' ''max_chars_per_item''
      else True)"

text \<open>One field of a transformed slide, when the transformation returned.\<close>

definition content_field :: "py_error + transformed_slide \<Rightarrow> string \<Rightarrow> py_error + jval option" where
  "content_field r key = (case r of Inl e \<Rightarrow> Inl e | Inr out \<Rightarrow> Inr (slide_content out key))"

section \<open>The director (src/agents/director.py)\<close>

subsection \<open>Layout selection\<close>

text \<open>The value of a \<^verbatim>\<open>slide_type\<close> literal, as an f-string prints it.\<close>

fun slide_type_name :: "slide_type \<Rightarrow> string" where
  "slide_type_name title_slide = ''title_slide''"
| "slide_type_name section_divider = ''section_divider''"
| "slide_type_name content_heavy = ''content_heavy''"
| "slide_type_name visual_heavy = ''visual_heavy''"
| "slide_type_name data_driven = ''data_driven''"
| "slide_type_name diagram_focused = ''diagram_focused''"
| "slide_type_name mixed_content = ''mixed_content''"
| "slide_type_name conclusion_slide = ''conclusion_slide''"

text \<open>\<^verbatim>\<open>{slide.analytics_needed or 'None'}\<close>\<close>

definition or_None :: "ustr option \<Rightarrow> ustr" where
  "or_None x = (case nonempty x of None \<Rightarrow> u ''None'' | Some v \<Rightarrow> v)"

text \<open>\<^verbatim>\<open>{', '.join(slide.key_points[:5]) if slide.key_points else 'None'}\<close>\<close>

definition key_points_text :: "slide \<Rightarrow> ustr" where
  "key_points_text s =
     (if key_points s \<noteq> [] then py_join (u '', '') (slice_to (key_points s) 5) else u ''None'')"

text \<open>The prompt of the semantic selection, an f-string; U+0027 is written \<open>[39]\<close>.\<close>

definition selection_prompt :: "slide \<Rightarrow> ustr \<Rightarrow> ustr" where
  "selection_prompt s layout_options_text =
     [10]
     @ u ''You are selecting the most appropriate slide layout for a presentation slide.'' @ [10]
     @ [10]
     @ u ''**Slide Information:**'' @ [10]
     @ u ''- Title: '' @ title s @ [10]
     @ u ''- Narrative: '' @ narrative s @ [10]
     @ u ''- Key Points: '' @ key_points_text s @ [10]
     @ u ''- Slide Type: '' @ u (slide_type_name (slide_type s)) @ [10]
     @ u ''- Content Needs:'' @ [10]
     @ u ''  - Analytics: '' @ or_None (analytics_needed s) @ [10]
     @ u ''  - Visuals: '' @ or_None (visuals_needed s) @ [10]
     @ u ''  - Diagrams: '' @ or_None (diagrams_needed s) @ [10]
     @ u ''  - Tables: '' @ or_None (tables_needed s) @ [10]
     @ u ''- Structure Preference: '' @ or_None (structure_preference s) @ [10]
     @ [10]
     @ u ''**Available Layouts (with BestUseCase guidance):**'' @ [10]
     @ layout_options_text @ [10]
     @ [10]
     @ u ''**Task:**'' @ [10]
     @ u ''Select the layout whose BestUseCase most closely matches this slide'' @ [39] @ u ''s purpose and content.'' @ [10]
     @ [10]
     @ u ''Consider:'' @ [10]
     @ u ''1. Semantic alignment between slide narrative and layout BestUseCase'' @ [10]
     @ u ''2. Content type requirements (text, data, visuals, quotes, comparisons)'' @ [10]
     @ u ''3. Presentation intent (inform, persuade, compare, emphasize, inspire)'' @ [10]
     @ u ''4. Audience comprehension (clarity vs. detail vs. impact)'' @ [10]
     @ u ''5. Specific keywords that match layout BestUseCase'' @ [10]
     @ [10]
     @ u ''**Important Selection Criteria:**'' @ [10]
     @ u ''- If the slide contains a **customer testimonial or quote**, select **L07** (Quote Slide)'' @ [10]
     @ u ''- If the slide is **comparing two options** or showing **pros/cons**, select **L20** (Comparison)'' @ [10]
     @ u ''- If the slide shows **KPIs or metrics dashboard**, select **L19** (Dashboard)'' @ [10]
     @ u ''- If the slide has **data visualization with insights**, select **L17** (Chart + Insights)'' @ [10]
     @ u ''- If the slide has **sequential steps or process**, select **L06** (Numbered List)'' @ [10]
     @ u ''- If the slide has **simple bullet points**, select **L05** (Bullet List)'' @ [10]
     @ u ''- If the slide has **long-form explanation**, select **L04** (Text + Summary)'' @ [10]
     @ [10]
     @ u ''Return your selection with clear reasoning based on the semantic match between content and BestUseCase.'' @ [10]"

text \<open>
  \<^verbatim>\<open>_select_layout_by_use_case(slide, position, total_slides)\<close>. The result is paired with
  the prompts sent to the language model, in order. The three mandatory positions return
  before anything else is done; the model call is inside \<^verbatim>\<open>try\<close>, the formatting of the
  layout options is not.
\<close>

definition select_layout_by_use_case ::
  "director_env \<Rightarrow> slide \<Rightarrow> string \<Rightarrow> int \<Rightarrow> (py_error + layout_selection) \<times> ustr list" where
  "select_layout_by_use_case env s position n_slides =
     (if position = ''first''
      then (Inr \<lparr>chosen_layout_id = ''L01'',
                 reasoning = u ''First slide - using title layout'',
                 confidence = 1\<rparr>, [])
      else if position = ''last''
      then (Inr \<lparr>chosen_layout_id = ''L03'',
                 reasoning = u ''Last slide - using closing layout'',
                 confidence = 1\<rparr>, [])
      else if slide_type s = section_divider
      then (Inr \<lparr>chosen_layout_id = ''L02'',
                 reasoning = u ''Section divider slide'',
                 confidence = 1\<rparr>, [])
      else
        (case format_layout_options_for_ai env [''L01'', ''L02'', ''L03''] of
           Inl e \<Rightarrow> (Inl e, [])
         | Inr layout_options_text \<Rightarrow>
             (let prompt = selection_prompt s layout_options_text
              in case strawman_agent_run env prompt of
                   Inr selection \<Rightarrow> (Inr selection, [prompt])
                 | Inl msg \<Rightarrow>
                     (Inr \<lparr>chosen_layout_id = ''L05'',
                           reasoning = u ''Fallback layout after AI selection error: ''
                                       @ slice_to msg 100,
                           confidence = 1 / 2\<rparr>, [prompt]))))"

subsection \<open>Content generation (stage 6)\<close>

text \<open>
  \<^verbatim>\<open>_generate_slide_text(slide, presentation, session_id, slide_number)\<close>: raises when the
  text service is switched off; a slide without a layout is sent with \<^verbatim>\<open>"L05"\<close>.
\<close>

definition generate_slide_text ::
  "director_env \<Rightarrow> slide \<Rightarrow> presentation_strawman \<Rightarrow> ustr \<Rightarrow> nat \<Rightarrow> py_error + generated_text" where
  "generate_slide_text env s presentation session_id number =
     (if \<not> text_service_enabled env
      then Inl (ServiceError (u ''Text Service is not enabled''))
      else text_service_generate env
             (case layout_id s of
                None \<Rightarrow> ''L05''
              | Some lid \<Rightarrow> if lid = [] then ''L05'' else lid)
             s presentation session_id number)"

text \<open>
  The loop \<^verbatim>\<open>for idx, slide in enumerate(strawman.slides)\<close> with its three accumulators
  \<^verbatim>\<open>enriched_slides\<close>, \<^verbatim>\<open>successful_slides\<close> and \<^verbatim>\<open>failed_slides\<close>. The body is a
  \<^verbatim>\<open>try\<close> whose \<^verbatim>\<open>except Exception\<close> appends the failure entry. After the call, the
  \<^verbatim>\<open>try\<close> block only appends, counts and logs \<^verbatim>\<open>len(generated_text.content)\<close>, which is
  defined for both kinds of content, so that only the call can raise.
\<close>

fun generate_all ::
  "director_env \<Rightarrow> presentation_strawman \<Rightarrow> ustr \<Rightarrow> (nat \<times> slide) list
   \<Rightarrow> enriched_slide list \<times> nat \<times> nat \<Rightarrow> enriched_slide list \<times> nat \<times> nat" where
  "generate_all env strawman session_id [] acc = acc"
| "generate_all env strawman session_id ((idx, s) # rest) (enriched, successful, failed) =
     (case generate_slide_text env s strawman session_id (idx + 1) of
        Inr generated \<Rightarrow>
          generate_all env strawman session_id rest
            (enriched @ [\<lparr>original_slide = s, enriched_slide_id = slide_id s,
                           generated_text = Some generated, has_text_failure = False\<rparr>],
             successful + 1, failed)
      | Inl e \<Rightarrow>
          generate_all env strawman session_id rest
            (enriched @ [\<lparr>original_slide = s, enriched_slide_id = slide_id s,
                           generated_text = None, has_text_failure = True\<rparr>],
             successful, failed + 1))"

text \<open>The enriched presentation that the stage builds (director.py, lines 435 to 481).\<close>

definition enrich_presentation ::
  "director_env \<Rightarrow> ustr \<Rightarrow> presentation_strawman \<Rightarrow> enriched_presentation_strawman" where
  "enrich_presentation env session_id strawman =
     (case generate_all env strawman session_id (enumerate 0 (slides strawman)) ([], 0, 0) of
        (enriched, successful, failed) \<Rightarrow>
          \<lparr>original_strawman = strawman,
           enriched_slides = enriched,
           generation_metadata =
             \<lparr>total_slides = length (slides strawman),
              successful_slides = successful,
              failed_slides = failed,
              generation_time_seconds = generation_time env,
              timestamp = utcnow_isoformat env,
              service_used = u ''text_service_v1.0''\<rparr>\<rparr>)"

text \<open>\<^verbatim>\<open>api_response['url']\<close>\<close>

definition response_url :: "(string \<rightharpoonup> ustr) \<Rightarrow> py_error + ustr" where
  "response_url api_response =
     (case api_response ''url'' of None \<Rightarrow> Inl (KeyError ''url'') | Some v \<Rightarrow> Inr v)"

text \<open>
  \<^verbatim>\<open>_send_enriched_to_layout_architect(enriched)\<close>, with the number of calls it made to the
  deck builder: none if the transformation raised.
\<close>

definition send_enriched_to_layout_architect ::
  "director_env \<Rightarrow> enriched_presentation_strawman \<Rightarrow> (py_error + ustr) \<times> nat" where
  "send_enriched_to_layout_architect env enriched =
     (case transform_presentation (schema_catalog env) (current_date env)
             (original_strawman enriched) (Some enriched) of
        Inl e \<Rightarrow> (Inl e, 0)
      | Inr api_payload \<Rightarrow>
          (bindE (create_presentation env 0 api_payload) (\<lambda>api_response.
           bindE (response_url api_response) (\<lambda>url. Inr (get_full_url env url))), 1))"

text \<open>
  What the stage returns: the dictionary with the deck's URL, or the enriched
  presentation itself when the deck builder is switched off.
\<close>

datatype stage_response =
    UrlResponse "(string \<times> jval) list"
  | EnrichedResponse enriched_presentation_strawman

text \<open>
  The branch \<^verbatim>\<open>CONTENT_GENERATION\<close> of \<^verbatim>\<open>process\<close> (director.py, lines 418 to 515), from
  the lookup of the strawman in the session on; the stored strawman is taken to be a
  valid \<^verbatim>\<open>PresentationStrawman\<close>. The \<^verbatim>\<open>except\<close> branch of the send transforms the
  strawman without the enriched data and calls the deck builder again, outside any
  \<^verbatim>\<open>try\<close>; the handlers around the whole of \<^verbatim>\<open>process\<close> log and re-raise.
\<close>

definition content_generation ::
  "director_env \<Rightarrow> ustr \<Rightarrow> presentation_strawman option \<Rightarrow> py_error + stage_response" where
  "content_generation env session_id strawman_data =
     (case strawman_data of
        None \<Rightarrow> Inl (ValueError (u ''No strawman found in session for content generation''))
      | Some strawman \<Rightarrow>
          (let enriched_presentation = enrich_presentation env session_id strawman;
               meta = generation_metadata enriched_presentation
           in if deck_builder_enabled env
              then (case send_enriched_to_layout_architect env enriched_presentation of
                      (Inr deck_url, calls) \<Rightarrow>
                        Inr (UrlResponse
                          [(''type'', JStr (u ''presentation_url'')),
                           (''url'', JStr deck_url),
                           (''slide_count'', JInt (int (length (slides strawman)))),
                           (''content_generated'', JBool True),
                           (''successful_slides'', JInt (int (successful_slides meta))),
                           (''failed_slides'', JInt (int (failed_slides meta))),
                           (''message'', JStr
                              (u ''Your presentation with generated content is ready! View it at: ''
                               @ deck_url))])
                    | (Inl e, calls) \<Rightarrow>
                        bindE (transform_presentation (schema_catalog env) (current_date env)
                                 strawman None) (\<lambda>api_payload.
                        bindE (create_presentation env calls api_payload) (\<lambda>api_response.
                        bindE (response_url api_response) (\<lambda>url.
                          Inr (UrlResponse
                            [(''type'', JStr (u ''presentation_url'')),
                             (''url'', JStr (get_full_url env url)),
                             (''slide_count'', JInt (int (length (slides strawman)))),
                             (''content_generated'', JBool False),
                             (''message'', JStr
                                (u ''Presentation created (fallback mode): ''
                                 @ get_full_url env url))])))))
              else Inr (EnrichedResponse enriched_presentation)))"

text \<open>
  The slides whose text generation fails, and their number: slide \<open>idx\<close> is generated by
  the call with slide number \<open>idx + 1\<close>.
\<close>

definition slide_call_fails ::
  "director_env \<Rightarrow> ustr \<Rightarrow> presentation_strawman \<Rightarrow> nat \<times> slide \<Rightarrow> bool" where
  "slide_call_fails env session_id strawman p =
     (case p of (idx, s) \<Rightarrow> isl (generate_slide_text env s strawman session_id (idx + 1)))"

definition failure_count :: "director_env \<Rightarrow> ustr \<Rightarrow> presentation_strawman \<Rightarrow> nat" where
  "failure_count env session_id strawman =
     length (filter (slide_call_fails env session_id strawman) (enumerate 0 (slides strawman)))"

text \<open>The text that a slide's call returned, if it returned.\<close>

definition slide_call_text ::
  "director_env \<Rightarrow> ustr \<Rightarrow> presentation_strawman \<Rightarrow> nat \<times> slide \<Rightarrow> generated_text option" where
  "slide_call_text env session_id strawman p =
     (case p of (idx, s) \<Rightarrow>
        (case generate_slide_text env s strawman session_id (idx + 1) of
           Inr generated \<Rightarrow> Some generated
         | Inl e \<Rightarrow> None))"

section \<open>Example inputs\<close>

text \<open>
  The slide, presentation and structured content of the repository's pass-through test
  (tests/test\_format\_ownership.py), with schemas that carry the limits the mappers read.
\<close>

definition ex_slide :: slide where
  "ex_slide =
     \<lparr>slide_number = 1, slide_id = u ''test-001'', title = u ''Key Benefits'',
      slide_type = content_heavy, layout_id = Some ''L05'', layout_selection_reasoning = None,
      narrative = u ''Overview of main advantages'',
      key_points = [u ''Benefit 1'', u ''Benefit 2'', u ''Benefit 3''],
      analytics_needed = None, visuals_needed = None, diagrams_needed = None,
      tables_needed = None, structure_preference = None, speaker_notes = None\<rparr>"

definition ex_presentation :: presentation_strawman where
  "ex_presentation =
     \<lparr>main_title = u ''Test Presentation'', overall_theme = u ''Test Theme'',
      slides = [ex_slide], design_suggestions = u ''Modern professional'',
      target_audience = u ''Executives'', presentation_duration = 10\<rparr>"

definition ex_catalog :: layout_catalog where
  "ex_catalog = map_of
     [(''L01'', map_of
         [(''main_title'', map_of [(''max_chars'', 80)]),
          (''subtitle'', map_of [(''max_chars'', 120)]),
          (''organization'', map_of [(''max_chars'', 60)])]),
      (''L05'', map_of
         [(''slide_title'', map_of [(''max_chars'', 60)]),
          (''subtitle'', map_of [(''max_chars'', 100)]),
          (''bullets'', map_of [(''max_items'', 5), (''max_chars_per_item'', 100)])]),
      (''L06'', map_of
         [(''slide_title'', map_of [(''max_chars'', 60)]),
          (''numbered_items'', map_of [(''max_items'', 5)])]),
      (''L10'', map_of
         [(''slide_title'', map_of [(''max_chars'', 60)]),
          (''image'', map_of [(''max_chars'', 200)]),
          (''text_content'', map_of [(''max_chars'', 500)])]),
      (''L17'', map_of
         [(''slide_title'', map_of [(''max_chars'', 60)]),
          (''chart_url'', map_of [(''max_chars'', 200)]),
          (''key_insights'', map_of [(''max_items'', 4), (''max_chars_per_item'', 80)])])]"

definition ex_structured :: "string \<rightharpoonup> jval" where
  "ex_structured = map_of
     [(''slide_title'', JStr (u ''Key Benefits'')),
      (''subtitle'', JStr (u ''Our Competitive Advantages'')),
      (''bullets'', JStr (u ''<ul><li>Cost savings of 30%</li><li>Enhanced scalability</li></ul>'')),
      (''main_title'', JStr (u ''Generated Title'')),
      (''image'', JStr (u ''https://example.com/a.png'')),
      (''chart_url'', JStr (u ''https://example.com/c.png''))]"

definition ex_enriched :: "gen_content \<Rightarrow> bool \<Rightarrow> enriched_slide" where
  "ex_enriched c failed =
     \<lparr>original_slide = ex_slide, enriched_slide_id = u ''test-001'',
      generated_text = Some \<lparr>content = c, metadata = []\<rparr>, has_text_failure = failed\<rparr>"



text \<open>
  An environment in which the text service times out on the second slide and the deck
  builder refuses every call, and a deck of three slides.
\<close>

definition ex_session :: ustr where
  "ex_session = u ''session-1''"

definition ex_text :: generated_text where
  "ex_text = \<lparr>content = Legacy (u ''Generated body''), metadata = []\<rparr>"

definition ex_env :: director_env where
  "ex_env =
     \<lparr>text_service_enabled = True,
      deck_builder_enabled = True,
      format_layout_options_for_ai = (\<lambda>exclude. Inl (KeyError ''layouts'')),
      strawman_agent_run =
        (\<lambda>prompt. Inr \<lparr>chosen_layout_id = ''L07'', reasoning = u ''Quote slide'',
                          confidence = 9 / 10\<rparr>),
      text_service_generate =
        (\<lambda>lid s presentation session_id number.
           if number = 2 then Inl (ServiceError (u ''Text Service timeout after 60s''))
           else Inr ex_text),
      schema_catalog = ex_catalog,
      current_date = u ''2025-01-01'',
      create_presentation = (\<lambda>n payload. Inl (ServiceError (u ''Connection refused''))),
      get_full_url = (\<lambda>path. u ''https://deck.example.com'' @ path),
      generation_time = 12,
      utcnow_isoformat = u ''2025-01-01T00:00:12''\<rparr>"

definition ex_deck :: presentation_strawman where
  "ex_deck =
     ex_presentation
       \<lparr>slides :=
          [ex_slide,
           ex_slide\<lparr>slide_number := 2, slide_id := u ''test-002''\<rparr>,
           ex_slide\<lparr>slide_number := 3, slide_id := u ''test-003''\<rparr>]\<rparr>"

section \<open>Properties of the state machine\<close>

lemma transitions_keys: "map fst TRANSITIONS = STATES"
  by (simp add: TRANSITIONS_def STATES_def)

lemma transitions_lookup_None:
  "state \<notin> set STATES \<Longrightarrow> map_of TRANSITIONS state = None"
proof -
  assume "state \<notin> set STATES"
  then have "state \<notin> set (map fst TRANSITIONS)"
    by (simp add: transitions_keys)
  then show ?thesis
    by (simp add: map_of_eq_None_iff)
qed

lemma validate_transition_iff_member:
  "validate_transition s t = (t \<in> set (get_next_states s))"
  by (simp add: validate_transition_def get_next_states_def split: option.split)

text \<open>
  Claim C1. For each of the six stages, \<open>get_next_states\<close> returns exactly the entries
  of the fixed transition table, and for every pair of names \<open>validate_transition s t\<close>
  holds exactly when \<open>t\<close> is one of \<open>get_next_states s\<close>.
\<close>

theorem next_states_table_and_validate:
  "get_next_states ''PROVIDE_GREETING'' = [''ASK_CLARIFYING_QUESTIONS'']
   \<and> get_next_states ''ASK_CLARIFYING_QUESTIONS'' = [''CREATE_CONFIRMATION_PLAN'']
   \<and> get_next_states ''CREATE_CONFIRMATION_PLAN'' =
        [''GENERATE_STRAWMAN'', ''ASK_CLARIFYING_QUESTIONS'', ''CREATE_CONFIRMATION_PLAN'']
   \<and> get_next_states ''GENERATE_STRAWMAN'' = [''REFINE_STRAWMAN'', ''CONTENT_GENERATION'']
   \<and> get_next_states ''REFINE_STRAWMAN'' = [''REFINE_STRAWMAN'', ''CONTENT_GENERATION'']
   \<and> get_next_states ''CONTENT_GENERATION'' = []
   \<and> (\<forall>s t. validate_transition s t = (t \<in> set (get_next_states s)))"
proof -
  have table:
    "get_next_states ''PROVIDE_GREETING'' = [''ASK_CLARIFYING_QUESTIONS'']"
    "get_next_states ''ASK_CLARIFYING_QUESTIONS'' = [''CREATE_CONFIRMATION_PLAN'']"
    "get_next_states ''CREATE_CONFIRMATION_PLAN'' =
        [''GENERATE_STRAWMAN'', ''ASK_CLARIFYING_QUESTIONS'', ''CREATE_CONFIRMATION_PLAN'']"
    "get_next_states ''GENERATE_STRAWMAN'' = [''REFINE_STRAWMAN'', ''CONTENT_GENERATION'']"
    "get_next_states ''REFINE_STRAWMAN'' = [''REFINE_STRAWMAN'', ''CONTENT_GENERATION'']"
    "get_next_states ''CONTENT_GENERATION'' = []"
    by (simp_all add: get_next_states_def TRANSITIONS_def)
  from table validate_transition_iff_member show ?thesis
    by blast
qed

theorem next_states_table_and_validate_witness:
  "validate_transition ''GENERATE_STRAWMAN'' ''CONTENT_GENERATION''
   \<and> \<not> validate_transition ''CONTENT_GENERATION'' ''PROVIDE_GREETING''
   \<and> \<not> validate_transition ''ASK_CLARIFYING_QUESTIONS'' ''ASK_CLARIFYING_QUESTIONS''"
  using next_states_table_and_validate by simp

text \<open>
  Claim C9. On a name that is not one of the six stages the state machine still answers,
  without any error: \<open>validate_transition\<close> is false for every target and
  \<open>get_next_states\<close> is the empty list. Both functions are total HOL functions whose
  Python originals contain no raising operation (a membership test and \<^verbatim>\<open>dict.get\<close>
  with a default).
\<close>

theorem unknown_state_is_rejected:
  assumes "s \<notin> set STATES"
  shows "validate_transition s t = False \<and> get_next_states s = []"
  using transitions_lookup_None [OF assms]
  by (simp add: validate_transition_def get_next_states_def)

theorem unknown_state_is_rejected_witness:
  "''LAYOUT_GENERATION'' \<notin> set STATES
   \<and> validate_transition ''LAYOUT_GENERATION'' ''CONTENT_GENERATION'' = False
   \<and> get_next_states ''LAYOUT_GENERATION'' = []"
proof -
  have h: "''LAYOUT_GENERATION'' \<notin> set STATES"
    by (simp add: STATES_def)
  from unknown_state_is_rejected [OF h, of "''CONTENT_GENERATION''"] h show ?thesis
    by simp
qed

section \<open>Properties of truncate\<close>

lemma bit_length_0 [simp]: "bit_length 0 = 0"
  by (simp add: bit_length.simps)

lemma bit_length_1 [simp]: "bit_length (Suc 0) = Suc 0"
  by (simp add: bit_length.simps)

lemma bit_length_Bit0 [simp]: "bit_length (numeral (Num.Bit0 k)) = Suc (bit_length (numeral k))"
  by (subst bit_length.simps) simp

lemma bit_length_Bit1 [simp]: "bit_length (numeral (Num.Bit1 k)) = Suc (bit_length (numeral k))"
  by (subst bit_length.simps) simp


lemmas float_eval = mul_0_7_def double_0_7_def float_of_int_def round_to_double_def int_gt_float_def Let_def
lemmas str_eval = u_def rfind_def occurs_at_def slice_to_def
lemmas truncate_eval = truncate_def float_eval str_eval


lemma length_slice_to_le: "length (slice_to xs n) \<le> length xs"
  by (auto simp: slice_to_def)

lemma slice_to_nonneg: "0 \<le> n \<Longrightarrow> slice_to xs n = take (nat n) xs"
  by (simp add: slice_to_def)

lemma length_slice_to_budget: "0 \<le> n \<Longrightarrow> int (length (slice_to xs n)) \<le> n"
  by (simp add: slice_to_def)

lemma occurs_at_bound: "occurs_at s sub i \<Longrightarrow> i \<le> length s"
  by (simp add: occurs_at_def)

lemma rfind_from_cases:
  "(rfind_from s sub k = - 1 \<and> (\<forall>i\<le>k. \<not> occurs_at s sub i))
   \<or> (\<exists>i\<le>k. rfind_from s sub k = int i \<and> occurs_at s sub i
         \<and> (\<forall>j. i < j \<and> j \<le> k \<longrightarrow> \<not> occurs_at s sub j))"
proof (induction k)
  case 0
  show ?case by simp
next
  case (Suc k)
  show ?case
  proof (cases "occurs_at s sub (Suc k)")
    case True
    then show ?thesis by auto
  next
    case False
    from Suc show ?thesis
    proof
      assume "rfind_from s sub k = - 1 \<and> (\<forall>i\<le>k. \<not> occurs_at s sub i)"
      with False show ?thesis by (auto simp: le_Suc_eq)
    next
      assume "\<exists>i\<le>k. rfind_from s sub k = int i \<and> occurs_at s sub i
         \<and> (\<forall>j. i < j \<and> j \<le> k \<longrightarrow> \<not> occurs_at s sub j)"
      then obtain i where i: "i \<le> k" "rfind_from s sub k = int i" "occurs_at s sub i"
        "\<forall>j. i < j \<and> j \<le> k \<longrightarrow> \<not> occurs_at s sub j" by blast
      have "\<forall>j. i < j \<and> j \<le> Suc k \<longrightarrow> \<not> occurs_at s sub j"
        using i(4) False by (auto simp: le_Suc_eq)
      with i False show ?thesis
        by (intro disjI2 exI [of _ i]) simp
    qed
  qed
qed

lemma rfind_cases:
  "(rfind s sub = - 1 \<and> (\<forall>i. \<not> occurs_at s sub i))
   \<or> (\<exists>i. rfind s sub = int i \<and> last_index s sub i)"
proof -
  from rfind_from_cases [of s sub "length s"] show ?thesis
  proof
    assume "rfind_from s sub (length s) = - 1 \<and> (\<forall>i\<le>length s. \<not> occurs_at s sub i)"
    then show ?thesis
      using occurs_at_bound [of s sub] by (auto simp: rfind_def)
  next
    assume "\<exists>i\<le>length s. rfind_from s sub (length s) = int i \<and> occurs_at s sub i
         \<and> (\<forall>j. i < j \<and> j \<le> length s \<longrightarrow> \<not> occurs_at s sub j)"
    then obtain i where i: "rfind_from s sub (length s) = int i" "occurs_at s sub i"
      "\<forall>j. i < j \<and> j \<le> length s \<longrightarrow> \<not> occurs_at s sub j" by blast
    have "last_index s sub i"
      unfolding last_index_def
    proof (intro conjI allI impI)
      show "occurs_at s sub i" by (rule i(2))
    next
      fix j assume j: "occurs_at s sub j"
      show "j \<le> i"
      proof (rule ccontr)
        assume "\<not> j \<le> i"
        with i(3) occurs_at_bound [OF j] j show False by auto
      qed
    qed
    with i(1) show ?thesis by (auto simp: rfind_def)
  qed
qed

lemma last_index_unique: "last_index s sub i \<Longrightarrow> last_index s sub j \<Longrightarrow> i = j"
  by (auto simp: last_index_def intro: le_antisym)

lemma rfind_eq_iff_last_index: "(rfind s sub = int i) = last_index s sub i"
proof
  assume r: "rfind s sub = int i"
  from rfind_cases [of s sub] r show "last_index s sub i" by auto
next
  assume l: "last_index s sub i"
  from rfind_cases [of s sub] show "rfind s sub = int i"
  proof
    assume "rfind s sub = - 1 \<and> (\<forall>i. \<not> occurs_at s sub i)"
    with l show ?thesis by (simp add: last_index_def)
  next
    assume "\<exists>i. rfind s sub = int i \<and> last_index s sub i"
    then obtain k where "rfind s sub = int k" "last_index s sub k" by blast
    with l last_index_unique show ?thesis by blast
  qed
qed

lemma rfind_absent_iff: "(rfind s sub = - 1) = (\<forall>i. \<not> occurs_at s sub i)"
  using rfind_cases [of s sub] by (auto simp: last_index_def)

lemma rfind_range: "- 1 \<le> rfind s sub \<and> rfind s sub \<le> int (length s)"
  using rfind_cases [of s sub] occurs_at_bound [of s sub] by (auto simp: last_index_def)


lemma bit_length_lower: "0 < p \<Longrightarrow> 2 ^ (bit_length p - 1) \<le> p"
proof (induction p rule: bit_length.induct)
  case (1 n)
  show ?case
  proof (cases "n div 2 = 0")
    case True
    with "1.prems" have "n = 1" by (simp add: div_eq_0_iff) 
    then show ?thesis by (simp add: bit_length.simps [of "Suc 0"])
  next
    case False
    with "1.IH" "1.prems" have ih: "2 ^ (bit_length (n div 2) - 1) \<le> n div 2" by simp
    from False have pos: "0 < bit_length (n div 2)"
      by (subst bit_length.simps) simp
    have "bit_length n - 1 = bit_length (n div 2)"
      using "1.prems" by (subst bit_length.simps) simp
    also have "\<dots> = Suc (bit_length (n div 2) - 1)" using pos by simp
    finally have "(2::nat) ^ (bit_length n - 1) = 2 * 2 ^ (bit_length (n div 2) - 1)" by simp
    also have "\<dots> \<le> 2 * (n div 2)" using ih by simp
    also have "\<dots> \<le> n" by simp
    finally show ?thesis .
  qed
qed

lemma round_to_double_le: "round_to_double p \<le> 2 * p"
proof (cases "p = 0")
  case True
  then show ?thesis by (simp add: round_to_double_def)
next
  case False
  define s where "s = bit_length p - 53"
  have "(2::nat) ^ s \<le> 2 ^ (bit_length p - 1)"
    by (rule power_increasing) (simp_all add: s_def)
  also have "\<dots> \<le> p" using bit_length_lower [of p] False by simp
  finally have s: "2 ^ s \<le> p" .
  have q: "p div 2 ^ s * 2 ^ s \<le> p" by simp
  have "(p div 2 ^ s + 1) * 2 ^ s = p div 2 ^ s * 2 ^ s + 2 ^ s" by (simp add: algebra_simps)
  with q s have "(p div 2 ^ s + 1) * 2 ^ s \<le> 2 * p" by linarith
  with q show ?thesis
    unfolding round_to_double_def Let_def s_def [symmetric] by (simp split: if_splits)
qed

lemma float_of_int_total:
  assumes "\<bar>n\<bar> < 2 ^ 1023"
  shows "float_of_int n = Inr (sgn n * int (round_to_double (nat \<bar>n\<bar>)))"
proof -
  have "round_to_double (nat \<bar>n\<bar>) \<le> 2 * nat \<bar>n\<bar>" by (rule round_to_double_le)
  also have "\<dots> < 2 * 2 ^ 1023" using assms by (simp add: nat_less_iff)
  finally have "round_to_double (nat \<bar>n\<bar>) < 2 ^ 1024" by simp
  then show ?thesis by (simp add: float_of_int_def Let_def)
qed

lemma mul_0_7_total: "\<bar>n\<bar> < 2 ^ 1023 \<Longrightarrow> \<exists>x. mul_0_7 n = Inr x"
  by (simp add: mul_0_7_def float_of_int_total)

lemma mul_0_7_nonneg: "0 \<le> n \<Longrightarrow> mul_0_7 n = Inr x \<Longrightarrow> 0 \<le> x"
  by (auto simp: mul_0_7_def float_of_int_def Let_def sgn_if split: sum.splits if_splits)

lemma sentence_cut_error:
  "mul_0_7 n = Inl e \<Longrightarrow> ds \<noteq> [] \<Longrightarrow> sentence_cut t n ds = Inl e"
  by (cases ds) (simp_all add: Let_def)

lemma sentence_cut_None_iff:
  "mul_0_7 n = Inr x \<Longrightarrow>
     (sentence_cut t n ds = Inr None) = (\<forall>d\<in>set ds. \<not> int_gt_float (rfind t d) x)"
  by (induction ds) (simp_all add: Let_def)

lemma sentence_cut_first:
  "mul_0_7 n = Inr x \<Longrightarrow> \<forall>d\<in>set pre. \<not> int_gt_float (rfind t d) x \<Longrightarrow>
   int_gt_float (rfind t d) x \<Longrightarrow>
   sentence_cut t n (pre @ d # post) = Inr (Some (slice_to t (rfind t d + 1)))"
  by (induction pre) (simp_all add: Let_def)

lemma sentence_cut_Some:
  "mul_0_7 n = Inr x \<Longrightarrow> sentence_cut t n ds = Inr (Some r) \<Longrightarrow>
   \<exists>d\<in>set ds. int_gt_float (rfind t d) x \<and> r = slice_to t (rfind t d + 1)"
  by (induction ds) (auto simp: Let_def split: if_splits)

lemma sentence_cut_not_error:
  "mul_0_7 n = Inr x \<Longrightarrow> \<exists>r. sentence_cut t n ds = Inr r"
  by (induction ds) (simp_all add: Let_def)

lemma sentence_cut_length:
  "sentence_cut t n ds = Inr (Some r) \<Longrightarrow> length r \<le> length t"
proof (induction ds)
  case Nil
  then show ?case by simp
next
  case (Cons d ds)
  then show ?case
    by (auto simp: Let_def length_slice_to_le split: sum.splits if_splits)
qed


lemma bit_length_upper: "n < 2 ^ k \<Longrightarrow> bit_length n \<le> k"
proof (induction k arbitrary: n)
  case 0
  then show ?case by (simp add: bit_length.simps)
next
  case (Suc k)
  from Suc.prems have "n div 2 < 2 ^ k" by (simp add: less_mult_imp_div_less mult.commute)
  then have "bit_length (n div 2) \<le> k" by (rule Suc.IH)
  then show ?case by (subst bit_length.simps) simp
qed

lemma round_to_double_exact: "n < 2 ^ 53 \<Longrightarrow> round_to_double n = n"
  using bit_length_upper [of n 53] by (simp add: round_to_double_def Let_def)

lemma round_to_double_error:
  "2 ^ 53 * \<bar>int (round_to_double p) - int p\<bar> \<le> int p"
proof (cases "bit_length p \<le> 53")
  case True
  then show ?thesis by (simp add: round_to_double_def Let_def)
next
  case False
  define s where "s = bit_length p - 53"
  define q where "q = p div 2 ^ s"
  define r where "r = p mod 2 ^ s"
  from False have pos: "0 < p" by (cases "p = 0") (simp_all add: bit_length.simps)
  from False have "s + 52 = bit_length p - 1" by (simp add: s_def)
  with bit_length_lower [OF pos] have big: "(2::nat) ^ (s + 52) \<le> p" by simp
  have p: "p = q * 2 ^ s + r"
    unfolding q_def r_def by (rule div_mult_mod_eq [symmetric])
  have r: "r < 2 ^ s" by (simp add: r_def)
  have "2 * \<bar>int (round_to_double p) - int p\<bar> \<le> 2 ^ s"
  proof (cases "2 ^ s < 2 * r \<or> (2 * r = 2 ^ s \<and> odd q)")
    case True
    then have "round_to_double p = (q + 1) * 2 ^ s"
      unfolding round_to_double_def Let_def s_def [symmetric] q_def [symmetric] r_def [symmetric]
      by simp
    then have "int (round_to_double p) - int p = 2 ^ s - int r"
      by (subst (2) p) (simp add: algebra_simps)
    moreover from True have "2 ^ s \<le> 2 * int r"
      by (metis (mono_tags, opaque_lifting) less_imp_le_nat of_nat_le_iff of_nat_mult of_nat_numeral of_nat_power order_refl)
    moreover from r have "int r < 2 ^ s"
      by (metis of_nat_less_iff of_nat_numeral of_nat_power)
    ultimately show ?thesis by simp
  next
    case False
    then have "round_to_double p = q * 2 ^ s"
      unfolding round_to_double_def Let_def s_def [symmetric] q_def [symmetric] r_def [symmetric]
      by simp
    then have "int (round_to_double p) - int p = - int r"
      by (subst (2) p) simp
    moreover from False have "2 * r \<le> 2 ^ s" by auto
    then have "2 * int r \<le> 2 ^ s"
      by (metis (mono_tags, opaque_lifting) of_nat_le_iff of_nat_mult of_nat_numeral of_nat_power)
    ultimately show ?thesis by simp
  qed
  then have "2 ^ 52 * (2 * \<bar>int (round_to_double p) - int p\<bar>) \<le> 2 ^ 52 * 2 ^ s"
    by (rule mult_left_mono) simp
  also have "\<dots> = int (2 ^ (s + 52))" by (simp add: power_add)
  also have "\<dots> \<le> int p" using big by (simp only: of_nat_le_iff)
  finally show ?thesis by simp
qed

lemma round_to_double_0 [simp]: "round_to_double 0 = 0"
  by (simp add: round_to_double_def)

lemma mul_0_7_small:
  assumes "0 \<le> n" "n < 2 ^ 53"
  shows "mul_0_7 n = Inr (int (round_to_double (nat n * double_0_7)))"
proof -
  from assms have "nat n < 2 ^ 53" by (simp add: nat_less_iff)
  then have "round_to_double (nat n) = nat n" by (rule round_to_double_exact)
  moreover from assms have "\<bar>n\<bar> < 2 ^ 1023" by simp
  ultimately show ?thesis
    using assms(1) by (simp add: mul_0_7_def float_of_int_total sgn_if)
qed

lemma seventy_percent_bounds:
  assumes "0 \<le> n" "n < 2 ^ 49" "mul_0_7 n = Inr x"
  shows "(7 * n < 10 * i \<longrightarrow> int_gt_float i x) \<and> (int_gt_float i x \<longrightarrow> 7 * n \<le> 10 * i)"
proof -
  define p where "p = nat n * double_0_7"
  from assms have x: "x = int (round_to_double p)"
    by (simp add: mul_0_7_small p_def)
  have p: "int p = n * 3152519739159347"
    using assms(1) by (simp add: p_def double_0_7_def)
  from round_to_double_error [of p] have "2 ^ 53 * \<bar>x - int p\<bar> \<le> int p"
    by (simp add: x)
  then have err: "9007199254740992 * \<bar>x - n * 3152519739159347\<bar> \<le> n * 3152519739159347"
    by (simp add: p)
  from assms(2) have n: "n < 562949953421312" by simp
  have "x - n * 3152519739159347 \<le> \<bar>x - n * 3152519739159347\<bar>"
    by (rule abs_ge_self)
  then have "9007199254740992 * (x - n * 3152519739159347)
      \<le> 9007199254740992 * \<bar>x - n * 3152519739159347\<bar>"
    by (rule mult_left_mono) simp
  from this err have "9007199254740992 * (x - n * 3152519739159347) \<le> n * 3152519739159347"
    by (rule order_trans)
  then have up: "9007199254740992 * x \<le> 9007199254740993 * 3152519739159347 * n"
    by (simp add: algebra_simps)
  have "- (x - n * 3152519739159347) \<le> \<bar>x - n * 3152519739159347\<bar>"
    by (rule abs_ge_minus_self)
  then have "9007199254740992 * (- (x - n * 3152519739159347))
      \<le> 9007199254740992 * \<bar>x - n * 3152519739159347\<bar>"
    by (rule mult_left_mono) simp
  from this err have "9007199254740992 * (- (x - n * 3152519739159347)) \<le> n * 3152519739159347"
    by (rule order_trans)
  then have low: "9007199254740991 * 3152519739159347 * n \<le> 9007199254740992 * x"
    by (simp add: algebra_simps)
  have "7 * n < 10 * i \<Longrightarrow> x < i * 4503599627370496"
    using up n assms(1) by linarith
  moreover have "x < i * 4503599627370496 \<Longrightarrow> 7 * n \<le> 10 * i"
    using low n assms(1) by linarith
  ultimately show ?thesis by (simp add: int_gt_float_def)
qed

lemma sentence_end_iff_rfind:
  assumes "0 \<le> x"
  shows "(\<exists>i. sentence_end t x d i) = int_gt_float (rfind t d) x"
proof
  assume "\<exists>i. sentence_end t x d i"
  then obtain i where "last_index t d i" "int_gt_float (int i) x"
    by (auto simp: sentence_end_def)
  then show "int_gt_float (rfind t d) x"
    by (simp add: rfind_eq_iff_last_index [symmetric])
next
  assume g: "int_gt_float (rfind t d) x"
  with assms have "0 \<le> rfind t d"
    by (simp add: int_gt_float_def)
  then obtain i where i: "rfind t d = int i" using nonneg_int_cases by blast
  with g show "\<exists>i. sentence_end t x d i"
    by (auto simp: sentence_end_def rfind_eq_iff_last_index [symmetric])
qed

lemma sentence_end_rfind:
  "sentence_end t x d i \<Longrightarrow> rfind t d = int i \<and> int_gt_float (rfind t d) x"
  by (simp add: sentence_end_def rfind_eq_iff_last_index [symmetric])

lemma truncate_short:
  "int (length text) \<le> max_chars \<Longrightarrow> truncate text max_chars add_ellipsis = Inr text"
  by (simp add: truncate_def)

lemma truncate_unfold:
  assumes "text \<noteq> []" "\<not> int (length text) \<le> max_chars"
  shows "truncate text max_chars add_ellipsis =
     (case sentence_cut (slice_to text max_chars) max_chars [u ''. '', u ''! '', u ''? ''] of
        Inl e \<Rightarrow> Inl e
      | Inr (Some res) \<Rightarrow> Inr res
      | Inr None \<Rightarrow>
          if 0 < rfind (slice_to text max_chars) (u '' '')
          then Inr (slice_to (slice_to text max_chars) (rfind (slice_to text max_chars) (u '' ''))
                    @ (if add_ellipsis then u ''...'' else []))
          else Inr (slice_to text max_chars @ (if add_ellipsis then u ''...'' else [])))"
  using assms unfolding truncate_def Let_def by (simp only: if_False)

lemma truncate_length:
  assumes "0 \<le> max_chars" "truncate text max_chars add_ellipsis = Inr r"
  shows "int (length r) \<le> max_chars + (if add_ellipsis then 3 else 0)"
proof (cases "text = [] \<or> int (length text) \<le> max_chars")
  case True
  with assms show ?thesis by (auto simp: truncate_def split: if_splits)
next
  case False
  define t where "t = slice_to text max_chars"
  define ds where "ds = [u ''. '', u ''! '', u ''? '']"
  have t: "int (length t) \<le> max_chars"
    using assms(1) by (simp add: t_def length_slice_to_budget)
  have dots: "length (if add_ellipsis then u ''...'' else []) = (if add_ellipsis then 3 else 0)"
    by (simp add: u_def)
  from False have unf: "truncate text max_chars add_ellipsis =
     (case sentence_cut t max_chars ds of
        Inl e \<Rightarrow> Inl e
      | Inr (Some res) \<Rightarrow> Inr res
      | Inr None \<Rightarrow>
          if 0 < rfind t (u '' '')
          then Inr (slice_to t (rfind t (u '' '')) @ (if add_ellipsis then u ''...'' else []))
          else Inr (t @ (if add_ellipsis then u ''...'' else [])))"
    unfolding t_def ds_def by (intro truncate_unfold) simp_all
  show ?thesis
  proof (cases "sentence_cut t max_chars ds")
    case (Inl e)
    with unf assms(2) show ?thesis by simp
  next
    case (Inr c)
    show ?thesis
    proof (cases c)
      case None
      with Inr unf assms(2) have
        "r = slice_to t (rfind t (u '' '')) @ (if add_ellipsis then u ''...'' else [])
         \<or> r = t @ (if add_ellipsis then u ''...'' else [])"
        by (simp split: if_splits)
      then have "length r \<le> length t + (if add_ellipsis then 3 else 0)"
        using length_slice_to_le [of t "rfind t (u '' '')"] dots by auto
      with t show ?thesis by (simp split: if_splits)
    next
      case (Some res)
      with Inr unf assms(2) have "sentence_cut t max_chars ds = Inr (Some r)" by simp
      from sentence_cut_length [OF this] t show ?thesis by simp
    qed
  qed
qed

lemma truncate_total:
  assumes "\<bar>max_chars\<bar> < 2 ^ 1023"
  shows "\<exists>r. truncate text max_chars add_ellipsis = Inr r"
proof -
  from mul_0_7_total [OF assms] obtain x where "mul_0_7 max_chars = Inr x" ..
  from sentence_cut_not_error [OF this]
  obtain c where "sentence_cut (slice_to text max_chars) max_chars [u ''. '', u ''! '', u ''? ''] = Inr c" ..
  then show ?thesis
    by (cases c) (simp_all add: truncate_def Let_def)
qed

lemma truncate_idempotent:
  assumes "0 \<le> max_chars" "truncate text max_chars False = Inr r"
  shows "truncate r max_chars False = Inr r"
proof -
  from truncate_length [OF assms] have "int (length r) \<le> max_chars" by simp
  then show ?thesis by (rule truncate_short)
qed


lemma slice_to_is_take: "\<exists>k. slice_to xs n = take k xs"
  by (auto simp: slice_to_def)

lemma sentence_cut_is_prefix:
  "sentence_cut t n ds = Inr (Some r) \<Longrightarrow> \<exists>k. r = take k t"
proof (induction ds)
  case Nil
  then show ?case by simp
next
  case (Cons d ds)
  obtain k where k: "slice_to t (rfind t d + 1) = take k t"
    using slice_to_is_take by blast
  from Cons show ?case
    by (auto simp: Let_def k split: sum.splits if_splits)
qed

text \<open>
  Claim C5 (amended). For every text and every budget \<open>max_chars \<ge> 0\<close>: \<open>truncate\<close>
  returns (it raises only when the budget cannot be converted to a double, which needs
  \<open>max_chars \<ge> 2 ^ 1023\<close>); a returned string has at most \<open>max_chars\<close> characters, plus
  three when the ellipsis is requested; truncating the result again with the default
  \<open>add_ellipsis = False\<close> changes nothing; and a text within the budget is returned
  unchanged. The bound and the idempotence need \<open>0 \<le> max_chars\<close>: a negative budget
  reaches the slice \<^verbatim>\<open>text[:max_chars]\<close>, which drops characters from the end.
\<close>

theorem truncate_within_budget:
  assumes "0 \<le> max_chars"
  shows "(max_chars < 2 ^ 1023 \<longrightarrow> (\<exists>r. truncate text max_chars add_ellipsis = Inr r))
     \<and> (\<forall>r. truncate text max_chars add_ellipsis = Inr r \<longrightarrow>
            int (length r) \<le> max_chars + (if add_ellipsis then 3 else 0))
     \<and> (\<forall>r. truncate text max_chars False = Inr r \<longrightarrow> truncate r max_chars False = Inr r)
     \<and> (int (length text) \<le> max_chars \<longrightarrow> truncate text max_chars add_ellipsis = Inr text)"
proof (intro conjI allI impI)
  assume "max_chars < 2 ^ 1023"
  with assms have "\<bar>max_chars\<bar> < 2 ^ 1023" by simp
  then show "\<exists>r. truncate text max_chars add_ellipsis = Inr r" by (rule truncate_total)
next
  fix r assume "truncate text max_chars add_ellipsis = Inr r"
  with assms show "int (length r) \<le> max_chars + (if add_ellipsis then 3 else 0)"
    by (rule truncate_length)
next
  fix r assume "truncate text max_chars False = Inr r"
  with assms show "truncate r max_chars False = Inr r" by (rule truncate_idempotent)
next
  assume "int (length text) \<le> max_chars"
  then show "truncate text max_chars add_ellipsis = Inr text" by (rule truncate_short)
qed

theorem truncate_within_budget_witness:
  "truncate (u ''Overview of the main advantages. Next steps follow'') 40 True
     = Inr (u ''Overview of the main advantages.'')
   \<and> int (length (u ''Overview of the main advantages.'')) \<le> 40 + 3
   \<and> truncate (u ''Overview of the main advantages.'') 40 False
     = Inr (u ''Overview of the main advantages.'')"
proof -
  have ev: "truncate (u ''Overview of the main advantages. Next steps follow'') 40 True
     = Inr (u ''Overview of the main advantages.'')"
    by (simp add: truncate_eval)
  have le: "int (length (u ''Overview of the main advantages.'')) \<le> 40"
    by (simp add: u_def)
  from truncate_within_budget [of 40 "u ''Overview of the main advantages.''" False] le
  have "truncate (u ''Overview of the main advantages.'') 40 False
     = Inr (u ''Overview of the main advantages.'')"
    by simp
  with ev le show ?thesis by simp
qed

text \<open>
  As stated for every \<open>max_chars\<close>, the claim fails on a negative budget:
  \<^verbatim>\<open>truncate("abc", -1)\<close> takes \<^verbatim>\<open>"abc"[:-1] = "ab"\<close>, finds no delimiter and no space,
  and returns \<^verbatim>\<open>"ab"\<close>, longer than the budget; a second call returns \<^verbatim>\<open>"a"\<close>.
\<close>

theorem truncate_negative_budget_counterexample:
  "truncate (u ''abc'') (- 1) False = Inr (u ''ab'')
   \<and> \<not> int (length (u ''ab'')) \<le> - 1
   \<and> truncate (u ''ab'') (- 1) False = Inr (u ''a'')"
  by (simp add: truncate_eval)


lemma truncate_sentence_branch:
  assumes "text \<noteq> []" "\<not> int (length text) \<le> max_chars"
    "sentence_cut (slice_to text max_chars) max_chars [u ''. '', u ''! '', u ''? ''] = Inr (Some r)"
  shows "truncate text max_chars add_ellipsis = Inr r"
  using assms(3) by (simp only: truncate_unfold [OF assms(1,2)] sum.case option.case)

lemma truncate_other_branches:
  assumes "text \<noteq> []" "\<not> int (length text) \<le> max_chars"
    "sentence_cut (slice_to text max_chars) max_chars [u ''. '', u ''! '', u ''? ''] = Inr None"
  shows "truncate text max_chars add_ellipsis =
     (if 0 < rfind (slice_to text max_chars) (u '' '')
      then Inr (slice_to (slice_to text max_chars) (rfind (slice_to text max_chars) (u '' ''))
                @ (if add_ellipsis then u ''...'' else []))
      else Inr (slice_to text max_chars @ (if add_ellipsis then u ''...'' else [])))"
  using assms(3) by (simp only: truncate_unfold [OF assms(1,2)] sum.case option.case)

text \<open>
  The branches of \<open>truncate\<close> on an over-budget text, in terms of the comparison the code
  makes (\<open>sentence_end\<close>: the last occurrence of a delimiter, at an index that compares
  greater than the double \<open>x\<close>), and the relation of that comparison to exact arithmetic.
\<close>

lemma truncate_branches:
  assumes "0 \<le> max_chars" "max_chars < int (length text)" "mul_0_7 max_chars = Inr x"
  shows
    "(sentence_end (take (nat max_chars) text) x (u ''. '') i \<longrightarrow>
        truncate text max_chars add_ellipsis = Inr (take (Suc i) text))
     \<and> ((\<forall>j. \<not> sentence_end (take (nat max_chars) text) x (u ''. '') j)
          \<and> sentence_end (take (nat max_chars) text) x (u ''! '') i \<longrightarrow>
        truncate text max_chars add_ellipsis = Inr (take (Suc i) text))
     \<and> ((\<forall>j. \<not> sentence_end (take (nat max_chars) text) x (u ''. '') j)
          \<and> (\<forall>j. \<not> sentence_end (take (nat max_chars) text) x (u ''! '') j)
          \<and> sentence_end (take (nat max_chars) text) x (u ''? '') i \<longrightarrow>
        truncate text max_chars add_ellipsis = Inr (take (Suc i) text))
     \<and> ((\<forall>d\<in>{u ''. '', u ''! '', u ''? ''}. \<forall>j. \<not> sentence_end (take (nat max_chars) text) x d j)
          \<and> last_index (take (nat max_chars) text) (u '' '') i \<and> 0 < i \<longrightarrow>
        truncate text max_chars add_ellipsis =
          Inr (take i text @ (if add_ellipsis then u ''...'' else [])))
     \<and> ((\<forall>d\<in>{u ''. '', u ''! '', u ''? ''}. \<forall>j. \<not> sentence_end (take (nat max_chars) text) x d j)
          \<and> (\<forall>j. occurs_at (take (nat max_chars) text) (u '' '') j \<longrightarrow> j = 0) \<longrightarrow>
        truncate text max_chars add_ellipsis =
          Inr (take (nat max_chars) text @ (if add_ellipsis then u ''...'' else [])))
     \<and> (max_chars < 2 ^ 49 \<longrightarrow>
          (\<forall>k. (7 * max_chars < 10 * k \<longrightarrow> int_gt_float k x)
             \<and> (int_gt_float k x \<longrightarrow> 7 * max_chars \<le> 10 * k)))"
proof -
  define t where "t = take (nat max_chars) text"
  define ds where "ds = [u ''. '', u ''! '', u ''? '']"
  have st: "slice_to text max_chars = t"
    using assms(1) by (simp add: slice_to_def t_def)
  have x0: "0 \<le> x" by (rule mul_0_7_nonneg [OF assms(1,3)])
  have ne: "text \<noteq> []" "\<not> int (length text) \<le> max_chars"
    using assms by auto
  have lt: "length t = nat max_chars"
    using assms by (simp add: t_def)
  have gt_iff: "int_gt_float (rfind t d) x = (\<exists>i. sentence_end t x d i)" for d
    using sentence_end_iff_rfind [OF x0] by simp
  have cut: "slice_to t (rfind t d + 1) = take (Suc i) text"
    if se: "sentence_end t x d i" and d: "length d = 2" for d i
  proof -
    from se have r: "rfind t d = int i" and occ: "occurs_at t d i"
      by (simp_all add: sentence_end_def rfind_eq_iff_last_index last_index_def)
    from occ d have i: "i + 2 \<le> length t" by (simp add: occurs_at_def)
    have "slice_to t (rfind t d + 1) = slice_to t (int (Suc i))" using r by (simp add: add.commute)
    also have "\<dots> = take (Suc i) t" by (simp add: slice_to_nonneg del: of_nat_Suc)
    also have "\<dots> = take (Suc i) text" using i lt by (simp add: t_def min_def)
    finally show ?thesis .
  qed
  have found: "truncate text max_chars add_ellipsis = Inr (take (Suc i) text)"
    if "sentence_cut t max_chars ds = Inr (Some (take (Suc i) text))" for i
    using that truncate_sentence_branch [OF ne, of "take (Suc i) text" add_ellipsis]
    by (simp add: st ds_def)
  have A: "truncate text max_chars add_ellipsis = Inr (take (Suc i) text)"
    if se: "sentence_end t x (u ''. '') i"
  proof -
    from se have g: "int_gt_float (rfind t (u ''. '')) x" by (auto simp: gt_iff)
    from sentence_cut_first [OF assms(3), of "[]" t "u ''. ''" "[u ''! '', u ''? '']"] g
    have "sentence_cut t max_chars ds = Inr (Some (slice_to t (rfind t (u ''. '') + 1)))"
      by (simp add: ds_def)
    with cut [OF se] show ?thesis by (simp add: found u_def)
  qed
  have B: "truncate text max_chars add_ellipsis = Inr (take (Suc i) text)"
    if no: "\<forall>j. \<not> sentence_end t x (u ''. '') j" and se: "sentence_end t x (u ''! '') i"
  proof -
    from se have g: "int_gt_float (rfind t (u ''! '')) x" by (auto simp: gt_iff)
    from no have n1: "\<not> int_gt_float (rfind t (u ''. '')) x" by (simp add: gt_iff)
    from sentence_cut_first [OF assms(3), of "[u ''. '']" t "u ''! ''" "[u ''? '']"] g n1
    have "sentence_cut t max_chars ds = Inr (Some (slice_to t (rfind t (u ''! '') + 1)))"
      by (simp add: ds_def)
    with cut [OF se] show ?thesis by (simp add: found u_def)
  qed
  have C: "truncate text max_chars add_ellipsis = Inr (take (Suc i) text)"
    if no1: "\<forall>j. \<not> sentence_end t x (u ''. '') j" and no2: "\<forall>j. \<not> sentence_end t x (u ''! '') j"
      and se: "sentence_end t x (u ''? '') i"
  proof -
    from se have g: "int_gt_float (rfind t (u ''? '')) x" by (auto simp: gt_iff)
    from no1 have n1: "\<not> int_gt_float (rfind t (u ''. '')) x" by (simp add: gt_iff)
    from no2 have n2: "\<not> int_gt_float (rfind t (u ''! '')) x" by (simp add: gt_iff)
    from sentence_cut_first [OF assms(3), of "[u ''. '', u ''! '']" t "u ''? ''" "[]"] g n1 n2
    have "sentence_cut t max_chars ds = Inr (Some (slice_to t (rfind t (u ''? '') + 1)))"
      by (simp add: ds_def)
    with cut [OF se] show ?thesis by (simp add: found u_def)
  qed
  have none: "truncate text max_chars add_ellipsis =
     (if 0 < rfind t (u '' '')
      then Inr (slice_to t (rfind t (u '' '')) @ (if add_ellipsis then u ''...'' else []))
      else Inr (t @ (if add_ellipsis then u ''...'' else [])))"
    if no: "\<forall>d\<in>{u ''. '', u ''! '', u ''? ''}. \<forall>j. \<not> sentence_end t x d j"
  proof -
    from no have "\<forall>d\<in>set ds. \<not> int_gt_float (rfind t d) x"
      by (simp add: gt_iff ds_def)
    then have "sentence_cut t max_chars ds = Inr None"
      by (simp only: sentence_cut_None_iff [OF assms(3)])
    then show ?thesis
      using truncate_other_branches [OF ne, of add_ellipsis] by (simp add: st ds_def)
  qed
  have D: "truncate text max_chars add_ellipsis =
      Inr (take i text @ (if add_ellipsis then u ''...'' else []))"
    if no: "\<forall>d\<in>{u ''. '', u ''! '', u ''? ''}. \<forall>j. \<not> sentence_end t x d j"
      and li: "last_index t (u '' '') i" and i: "0 < i" for i
  proof -
    from li have r: "rfind t (u '' '') = int i" by (simp add: rfind_eq_iff_last_index)
    from li have "i \<le> length t" by (simp add: last_index_def occurs_at_def)
    then have "slice_to t (int i) = take i text"
      using lt by (simp add: slice_to_def t_def min_def)
    with none [OF no] r i show ?thesis by simp
  qed
  have E: "truncate text max_chars add_ellipsis =
      Inr (t @ (if add_ellipsis then u ''...'' else []))"
    if no: "\<forall>d\<in>{u ''. '', u ''! '', u ''? ''}. \<forall>j. \<not> sentence_end t x d j"
      and sp: "\<forall>j. occurs_at t (u '' '') j \<longrightarrow> j = 0"
  proof -
    have "\<not> 0 < rfind t (u '' '')"
    proof
      assume pos: "0 < rfind t (u '' '')"
      then obtain k where k: "rfind t (u '' '') = int k" using zero_less_imp_eq_int by blast
      then have "occurs_at t (u '' '') k" by (simp add: rfind_eq_iff_last_index last_index_def)
      with sp have "k = 0" by simp
      with k pos show False by simp
    qed
    with none [OF no] show ?thesis by simp
  qed
  have F: "(7 * max_chars < 10 * k \<longrightarrow> int_gt_float k x)
             \<and> (int_gt_float k x \<longrightarrow> 7 * max_chars \<le> 10 * k)"
    if "max_chars < 2 ^ 49" for k
    using seventy_percent_bounds [OF assms(1) that assms(3)] .
  from A B C D E F show ?thesis
    unfolding t_def by blast
qed

text \<open>
  Claim C6 (amended). Let the text be longer than the budget \<open>0 \<le> max_chars < 2 ^ 49\<close> and
  let the window be its first \<open>max_chars\<close> characters (indices in exact arithmetic).

  \<^item> If the last occurrence in the window of one of the delimiters \<^verbatim>\<open>'. '\<close>, \<^verbatim>\<open>'! '\<close>, \<^verbatim>\<open>'? '\<close>
    lies strictly above 70 percent of \<open>max_chars\<close>, and every occurrence of the other two
    delimiters lies strictly below 70 percent, the result is the text up to and including
    that punctuation mark: the last sentence ending of the window. Nothing is appended.
  \<^item> If every occurrence of the three delimiters lies strictly below 70 percent (or there
    is none), the cut is before the last space character U+0020 of the window, provided
    that space is not at index 0.
  \<^item> If moreover the window has no space after index 0, the cut is at exactly
    \<open>max_chars\<close>.

  The last two branches append \<^verbatim>\<open>"..."\<close> exactly when \<open>add_ellipsis\<close> is set. The statement
  says nothing about a sentence ending at exactly 70 percent of the budget, nor about two
  kinds of sentence ending that both lie at or above 70 percent.
\<close>

theorem truncate_cut_points:
  assumes "0 \<le> max_chars" "max_chars < int (length text)" "max_chars < 2 ^ 49"
  shows
    "(d \<in> set [u ''. '', u ''! '', u ''? '']
        \<and> last_index (take (nat max_chars) text) d i \<and> 7 * max_chars < 10 * int i
        \<and> (\<forall>d'\<in>set [u ''. '', u ''! '', u ''? '']. d' \<noteq> d \<longrightarrow>
              (\<forall>j. occurs_at (take (nat max_chars) text) d' j \<longrightarrow> 10 * int j < 7 * max_chars))
        \<longrightarrow> truncate text max_chars add_ellipsis = Inr (take (Suc i) text))
     \<and> ((\<forall>d'\<in>set [u ''. '', u ''! '', u ''? ''].
              \<forall>j. occurs_at (take (nat max_chars) text) d' j \<longrightarrow> 10 * int j < 7 * max_chars)
          \<and> last_index (take (nat max_chars) text) (u '' '') k \<and> 0 < k
        \<longrightarrow> truncate text max_chars add_ellipsis =
              Inr (take k text @ (if add_ellipsis then u ''...'' else [])))
     \<and> ((\<forall>d'\<in>set [u ''. '', u ''! '', u ''? ''].
              \<forall>j. occurs_at (take (nat max_chars) text) d' j \<longrightarrow> 10 * int j < 7 * max_chars)
          \<and> (\<forall>j. occurs_at (take (nat max_chars) text) (u '' '') j \<longrightarrow> j = 0)
        \<longrightarrow> truncate text max_chars add_ellipsis =
              Inr (take (nat max_chars) text @ (if add_ellipsis then u ''...'' else [])))"
proof -
  define w where "w = take (nat max_chars) text"
  from assms have "\<bar>max_chars\<bar> < 2 ^ 1023"
    by (simp add: order_less_trans [of max_chars "2 ^ 49" "2 ^ 1023"])
  from mul_0_7_total [OF this] obtain x where x: "mul_0_7 max_chars = Inr x" ..
  note B = truncate_branches [OF assms(1,2) x, folded w_def]
  note P = seventy_percent_bounds [OF assms(1,3) x]
  have below: "\<not> sentence_end w x d' j"
    if "\<forall>j. occurs_at w d' j \<longrightarrow> 10 * int j < 7 * max_chars" for d' j
  proof
    assume se: "sentence_end w x d' j"
    then have "occurs_at w d' j" "int_gt_float (int j) x"
      by (simp_all add: sentence_end_def last_index_def)
    with that P [of "int j"] show False by fastforce
  qed
  have above: "sentence_end w x d i"
    if "last_index w d i" "7 * max_chars < 10 * int i" for d i
    using that P [of "int i"] by (simp add: sentence_end_def)
  have ne: "u ''. '' \<noteq> u ''! ''" "u ''. '' \<noteq> u ''? ''" "u ''! '' \<noteq> u ''? ''"
    by (simp_all add: u_def)
  have a: "truncate text max_chars add_ellipsis = Inr (take (Suc i) text)"
    if d: "d \<in> set [u ''. '', u ''! '', u ''? '']"
      and li: "last_index w d i" and ab: "7 * max_chars < 10 * int i"
      and others: "\<forall>d'\<in>set [u ''. '', u ''! '', u ''? '']. d' \<noteq> d \<longrightarrow>
              (\<forall>j. occurs_at w d' j \<longrightarrow> 10 * int j < 7 * max_chars)"
  proof -
    note se = above [OF li ab]
    from d consider "d = u ''. ''" | "d = u ''! ''" | "d = u ''? ''" by auto
    then show ?thesis
    proof cases
      case 1
      with se B show ?thesis by blast
    next
      case 2
      with others ne have "\<forall>j. occurs_at w (u ''. '') j \<longrightarrow> 10 * int j < 7 * max_chars" by simp
      then have "\<forall>j. \<not> sentence_end w x (u ''. '') j" using below by blast
      with se 2 B show ?thesis by blast
    next
      case 3
      with others ne have "\<forall>j. occurs_at w (u ''. '') j \<longrightarrow> 10 * int j < 7 * max_chars"
        "\<forall>j. occurs_at w (u ''! '') j \<longrightarrow> 10 * int j < 7 * max_chars" by simp_all
      then have "\<forall>j. \<not> sentence_end w x (u ''. '') j" "\<forall>j. \<not> sentence_end w x (u ''! '') j"
        using below by blast+
      with se 3 B show ?thesis by blast
    qed
  qed
  have none: "\<forall>d\<in>{u ''. '', u ''! '', u ''? ''}. \<forall>j. \<not> sentence_end w x d j"
    if "\<forall>d'\<in>set [u ''. '', u ''! '', u ''? ''].
              \<forall>j. occurs_at w d' j \<longrightarrow> 10 * int j < 7 * max_chars"
    using that below by simp
  have b: "truncate text max_chars add_ellipsis =
              Inr (take k text @ (if add_ellipsis then u ''...'' else []))"
    if "\<forall>d'\<in>set [u ''. '', u ''! '', u ''? ''].
              \<forall>j. occurs_at w d' j \<longrightarrow> 10 * int j < 7 * max_chars"
      "last_index w (u '' '') k" "0 < k"
    using none [OF that(1)] that(2,3) B by blast
  have c: "truncate text max_chars add_ellipsis =
              Inr (w @ (if add_ellipsis then u ''...'' else []))"
    if "\<forall>d'\<in>set [u ''. '', u ''! '', u ''? ''].
              \<forall>j. occurs_at w d' j \<longrightarrow> 10 * int j < 7 * max_chars"
      "\<forall>j. occurs_at w (u '' '') j \<longrightarrow> j = 0"
    using none [OF that(1)] that(2) B by blast
  from a b c show ?thesis unfolding w_def by blast
qed

text \<open>
  Claim C10. For an over-budget text that the sentence loop cuts, the result is the same
  with and without \<open>add_ellipsis\<close> and is a prefix of the text, so nothing is appended;
  whenever the two settings give different results, the sentence loop found nothing and
  the result with \<open>add_ellipsis\<close> is the other one followed by \<^verbatim>\<open>"..."\<close> (the last-space
  and the hard-cut branch).
\<close>

theorem sentence_branch_has_no_ellipsis:
  assumes "text \<noteq> []" "\<not> int (length text) \<le> max_chars"
  shows
    "(\<forall>r. sentence_cut (slice_to text max_chars) max_chars [u ''. '', u ''! '', u ''? ''] = Inr (Some r)
        \<longrightarrow> truncate text max_chars True = Inr r \<and> truncate text max_chars False = Inr r
            \<and> (\<exists>k. r = take k text))
     \<and> (truncate text max_chars True \<noteq> truncate text max_chars False \<longrightarrow>
          sentence_cut (slice_to text max_chars) max_chars [u ''. '', u ''! '', u ''? ''] = Inr None
          \<and> (\<exists>r. truncate text max_chars False = Inr r
                \<and> truncate text max_chars True = Inr (r @ u ''...'')))"
proof (intro conjI allI impI)
  fix r
  assume sc: "sentence_cut (slice_to text max_chars) max_chars [u ''. '', u ''! '', u ''? ''] = Inr (Some r)"
  show "truncate text max_chars True = Inr r"
    by (rule truncate_sentence_branch [OF assms sc])
  show "truncate text max_chars False = Inr r"
    by (rule truncate_sentence_branch [OF assms sc])
  from sentence_cut_is_prefix [OF sc] obtain k where "r = take k (slice_to text max_chars)" ..
  moreover obtain m where "slice_to text max_chars = take m text"
    using slice_to_is_take by blast
  ultimately have "r = take (min k m) text" by simp
  then show "\<exists>k. r = take k text" ..
next
  assume diff: "truncate text max_chars True \<noteq> truncate text max_chars False"
  show none: "sentence_cut (slice_to text max_chars) max_chars [u ''. '', u ''! '', u ''? ''] = Inr None"
  proof (cases "sentence_cut (slice_to text max_chars) max_chars [u ''. '', u ''! '', u ''? '']")
    case (Inl e)
    then have "truncate text max_chars True = Inl e" "truncate text max_chars False = Inl e"
      by (simp_all only: truncate_unfold [OF assms] sum.case)
    with diff show ?thesis by simp
  next
    case (Inr c)
    show ?thesis
    proof (cases c)
      case None
      with Inr show ?thesis by simp
    next
      case (Some r)
      with Inr have "truncate text max_chars True = Inr r" "truncate text max_chars False = Inr r"
        using truncate_sentence_branch [OF assms] by simp_all
      with diff show ?thesis by simp
    qed
  qed
  show "\<exists>r. truncate text max_chars False = Inr r
                \<and> truncate text max_chars True = Inr (r @ u ''...'')"
    by (simp add: truncate_other_branches [OF assms none])
qed

lemmas spec_eval = truncate_spec_def sentence_end_positions_spec_def whitespace_positions_spec_def
  py_isspace_def occurs_at_def u_def Let_def

theorem truncate_cut_points_witness:
  "last_index (take 40 (u ''Overview of the main advantages. Next steps follow'')) (u ''. '') 31
   \<and> truncate (u ''Overview of the main advantages. Next steps follow'') 40 True
        = Inr (u ''Overview of the main advantages.'')
   \<and> last_index (take 20 (u ''Yes. aaaaaaaaaaaaaaaaaaaa bbb'')) (u '' '') 4
   \<and> truncate (u ''Yes. aaaaaaaaaaaaaaaaaaaa bbb'') 20 True = Inr (u ''Yes....'')
   \<and> truncate (u ''aaaaaaaaaaaaaaaa'') 5 True = Inr (u ''aaaaa...'')"
proof -
  let ?D = "[u ''. '', u ''! '', u ''? '']"
  let ?S = "u ''Overview of the main advantages. Next steps follow''"
  have len1: "(40::int) < int (length ?S)" by (simp add: u_def)
  have li1: "last_index (take 40 ?S) (u ''. '') 31"
    unfolding rfind_eq_iff_last_index [symmetric] by (simp add: str_eval)
  have n1: "\<forall>j. \<not> occurs_at (take 40 ?S) (u ''! '') j"
    unfolding rfind_absent_iff [symmetric] by (simp add: str_eval)
  have n2: "\<forall>j. \<not> occurs_at (take 40 ?S) (u ''? '') j"
    unfolding rfind_absent_iff [symmetric] by (simp add: str_eval)
  have d1: "u ''. '' \<in> set ?D" by simp
  have o1: "\<forall>d'\<in>set ?D. d' \<noteq> u ''. '' \<longrightarrow>
      (\<forall>j. occurs_at (take (nat 40) ?S) d' j \<longrightarrow> 10 * int j < 7 * 40)"
    using n1 n2 by simp
  from truncate_cut_points [of 40 ?S "u ''. ''" 31 True, THEN conjunct1] len1 d1 li1 o1
  have "truncate ?S 40 True = Inr (take (Suc 31) ?S)" by simp
  moreover have "take (Suc 31) ?S = u ''Overview of the main advantages.''" by (simp add: u_def)
  ultimately have r1: "truncate ?S 40 True = Inr (u ''Overview of the main advantages.'')"
    by (simp only:)
  let ?T = "u ''Yes. aaaaaaaaaaaaaaaaaaaa bbb''"
  have len2: "(20::int) < int (length ?T)" by (simp add: u_def)
  have li2: "last_index (take 20 ?T) (u '' '') 4"
    unfolding rfind_eq_iff_last_index [symmetric] by (simp add: str_eval)
  have p: "last_index (take 20 ?T) (u ''. '') 3"
    unfolding rfind_eq_iff_last_index [symmetric] by (simp add: str_eval)
  have m1: "\<forall>j. occurs_at (take 20 ?T) (u ''. '') j \<longrightarrow> 10 * int j < 7 * 20"
  proof (intro allI impI)
    fix j assume "occurs_at (take 20 ?T) (u ''. '') j"
    with p have "j \<le> 3" by (simp add: last_index_def)
    then show "10 * int j < 7 * 20" by simp
  qed
  have m2: "\<forall>j. \<not> occurs_at (take 20 ?T) (u ''! '') j"
    unfolding rfind_absent_iff [symmetric] by (simp add: str_eval)
  have m3: "\<forall>j. \<not> occurs_at (take 20 ?T) (u ''? '') j"
    unfolding rfind_absent_iff [symmetric] by (simp add: str_eval)
  have o2: "\<forall>d'\<in>set ?D. \<forall>j. occurs_at (take (nat 20) ?T) d' j \<longrightarrow> 10 * int j < 7 * 20"
    using m1 m2 m3 by simp
  from truncate_cut_points [of 20 ?T _ _ True 4, THEN conjunct2, THEN conjunct1] len2 o2 li2
  have "truncate ?T 20 True = Inr (take 4 ?T @ u ''...'')" by simp
  moreover have "take 4 ?T @ u ''...'' = u ''Yes....''" by (simp add: u_def)
  ultimately have r2: "truncate ?T 20 True = Inr (u ''Yes....'')" by (simp only:)
  let ?U = "u ''aaaaaaaaaaaaaaaa''"
  have len3: "(5::int) < int (length ?U)" by (simp add: u_def)
  have k1: "\<forall>j. \<not> occurs_at (take 5 ?U) (u ''. '') j"
    unfolding rfind_absent_iff [symmetric] by (simp add: str_eval)
  have k2: "\<forall>j. \<not> occurs_at (take 5 ?U) (u ''! '') j"
    unfolding rfind_absent_iff [symmetric] by (simp add: str_eval)
  have k3: "\<forall>j. \<not> occurs_at (take 5 ?U) (u ''? '') j"
    unfolding rfind_absent_iff [symmetric] by (simp add: str_eval)
  have k4: "\<forall>j. \<not> occurs_at (take 5 ?U) (u '' '') j"
    unfolding rfind_absent_iff [symmetric] by (simp add: str_eval)
  have o3: "\<forall>d'\<in>set ?D. \<forall>j. occurs_at (take (nat 5) ?U) d' j \<longrightarrow> 10 * int j < 7 * 5"
    using k1 k2 k3 by simp
  have s3: "\<forall>j. occurs_at (take (nat 5) ?U) (u '' '') j \<longrightarrow> j = 0"
    using k4 by simp
  from truncate_cut_points [of 5 ?U _ _ True, THEN conjunct2, THEN conjunct2] len3 o3 s3
  have "truncate ?U 5 True = Inr (take (nat 5) ?U @ u ''...'')" by simp
  moreover have "take (nat 5) ?U @ u ''...'' = u ''aaaaa...''" by (simp add: u_def)
  ultimately have r3: "truncate ?U 5 True = Inr (u ''aaaaa...'')" by (simp only:)
  from li1 r1 li2 r2 r3 show ?thesis by (intro conjI)
qed

text \<open>
  The wording of claim C6, read as \<open>truncate_spec\<close>, takes any whitespace as a cut point
  and has no condition on its index. The code searches the space character only
  (\<^verbatim>\<open>truncated.rfind(' ')\<close>) and cuts there only if \<^verbatim>\<open>last_space > 0\<close>: a tab is no cut
  point, and a space at index 0 is not used.
\<close>

theorem truncate_spec_wording_counterexample:
  "truncate (u ''aaaaaaaa'' @ [9] @ u ''bbbbbbbb'') 12 False = Inr (u ''aaaaaaaa'' @ [9] @ u ''bbb'')
   \<and> truncate_spec (u ''aaaaaaaa'' @ [9] @ u ''bbbbbbbb'') 12 False = u ''aaaaaaaa''
   \<and> truncate (u '' aaaaaaaaaaaa'') 5 False = Inr (u '' aaaa'')
   \<and> truncate_spec (u '' aaaaaaaaaaaa'') 5 False = []"
proof -
  have "truncate (u ''aaaaaaaa'' @ [9] @ u ''bbbbbbbb'') 12 False
      = Inr (u ''aaaaaaaa'' @ [9] @ u ''bbb'')"
    by (simp add: truncate_eval)
  moreover have "truncate_spec (u ''aaaaaaaa'' @ [9] @ u ''bbbbbbbb'') 12 False = u ''aaaaaaaa''"
    by (simp add: spec_eval)
  moreover have "truncate (u '' aaaaaaaaaaaa'') 5 False = Inr (u '' aaaa'')"
    by (simp add: truncate_eval)
  moreover have "truncate_spec (u '' aaaaaaaaaaaa'') 5 False = []"
    by (simp add: spec_eval)
  ultimately show ?thesis by (intro conjI)
qed

theorem sentence_branch_has_no_ellipsis_witness:
  "sentence_cut (slice_to (u ''Overview of the main advantages. Next steps follow'') 40) 40
      [u ''. '', u ''! '', u ''? ''] = Inr (Some (u ''Overview of the main advantages.''))
   \<and> truncate (u ''Overview of the main advantages. Next steps follow'') 40 True
      = Inr (u ''Overview of the main advantages.'')
   \<and> truncate (u ''aaaaaaaaaaaaaa. bb cccc'') 20 True \<noteq> truncate (u ''aaaaaaaaaaaaaa. bb cccc'') 20 False
   \<and> sentence_cut (slice_to (u ''aaaaaaaaaaaaaa. bb cccc'') 20) 20 [u ''. '', u ''! '', u ''? '']
      = Inr None"
proof -
  let ?S = "u ''Overview of the main advantages. Next steps follow''"
  let ?T = "u ''aaaaaaaaaaaaaa. bb cccc''"
  have sc: "sentence_cut (slice_to ?S 40) 40 [u ''. '', u ''! '', u ''? '']
      = Inr (Some (u ''Overview of the main advantages.''))"
    by (simp add: float_eval str_eval)
  have ne: "?S \<noteq> []" "\<not> int (length ?S) \<le> 40" by (simp_all add: u_def)
  from sentence_branch_has_no_ellipsis [OF ne] sc
  have r: "truncate ?S 40 True = Inr (u ''Overview of the main advantages.'')" by blast
  have d: "truncate ?T 20 True \<noteq> truncate ?T 20 False"
    by (simp add: truncate_eval)
  have ne2: "?T \<noteq> []" "\<not> int (length ?T) \<le> 20" by (simp_all add: u_def)
  from sentence_branch_has_no_ellipsis [OF ne2] d
  have n: "sentence_cut (slice_to ?T 20) 20 [u ''. '', u ''! '', u ''? ''] = Inr None" by blast
  from sc r d n show ?thesis by (intro conjI)
qed

section \<open>Structured content passes through\<close>

lemma bindE_Inr_iff: "(bindE m f = Inr y) = (\<exists>x. m = Inr x \<and> f x = Inr y)"
  by (cases m) (simp_all add: bindE_def)

lemma bindE_Inr [simp]: "bindE (Inr x) f = f x"
  by (simp add: bindE_def)

lemma bindE_Inl [simp]: "bindE (Inl e) f = Inl e"
  by (simp add: bindE_def)

lemma copy_if_both_apply:
  "copy_if_both flds d key result k =
     (if k = key \<and> flds key \<noteq> None \<and> d key \<noteq> None then d key else result k)"
  by (auto simp: copy_if_both_def split: option.splits)

lemma usable_content_structured:
  "generated_text e = Some g \<Longrightarrow> content g = Structured d \<Longrightarrow> \<not> has_text_failure e \<Longrightarrow>
   usable_content (Some e) = Some (Structured d)"
  by (simp add: usable_content_def)

lemma field_limit_has_limit:
  "has_limit flds name key \<Longrightarrow> \<exists>v. field_limit flds name key = Inr v"
  by (auto simp: has_limit_def field_limit_def split: option.splits)

lemma text_summary_structured:
  assumes "usable_content enriched = Some (Structured d)"
  shows "map_text_summary s flds p enriched =
     Inr (copy_if_both flds d ''summary'' (copy_if_both flds d ''subtitle''
            (map_of
              [(''slide_title'', get_or d ''slide_title'' (JStr (title s))),
               (''main_text_content'', get_or d ''main_text_content'' (JStr []))])))"
  by (simp add: map_text_summary_def assms)

lemma bullet_list_structured:
  assumes "usable_content enriched = Some (Structured d)"
    "field_limit flds ''bullets'' ''max_items'' = Inr a"
    "field_limit flds ''bullets'' ''max_chars_per_item'' = Inr b"
  shows "map_bullet_list s flds p enriched =
     Inr (copy_if_both flds d ''subtitle''
             (map_of
               [(''slide_title'', get_or d ''slide_title'' (JStr (title s))),
                (''bullets'', get_or d ''bullets'' (JList []))]))"
  by (simp add: map_bullet_list_def assms)

lemma numbered_list_structured:
  assumes "usable_content enriched = Some (Structured d)"
    "field_limit flds ''numbered_items'' ''max_items'' = Inr a"
  shows "map_numbered_list s flds p enriched =
     Inr (copy_if_both flds d ''subtitle''
             (map_of
               [(''slide_title'', get_or d ''slide_title'' (JStr (title s))),
                (''numbered_items'', get_or d ''numbered_items'' (JList []))]))"
  by (simp add: map_numbered_list_def assms)

lemma image_text_structured:
  assumes "usable_content enriched = Some (Structured d)"
  shows "map_image_text s flds p enriched =
     Inr (copy_if_both flds d ''subtitle''
            (map_of
              [(''slide_title'', get_or d ''slide_title'' (JStr (title s))),
               (''image'', JStr (image_placeholder s)),
               (''text_content'', get_or d ''text_content'' (JStr []))]))"
  by (simp add: map_image_text_def assms)

lemma chart_insights_structured:
  assumes "usable_content enriched = Some (Structured d)"
    "field_limit flds ''key_insights'' ''max_items'' = Inr a"
    "field_limit flds ''key_insights'' ''max_chars_per_item'' = Inr b"
  shows "map_chart_insights s flds p enriched =
     Inr (copy_if_both flds d ''summary'' (copy_if_both flds d ''subtitle''
             (map_of
               [(''slide_title'', get_or d ''slide_title'' (JStr (title s))),
                (''chart_url'', JStr (chart_placeholder s)),
                (''key_insights'', get_or d ''key_insights'' (JList []))])))"
  by (simp add: map_chart_insights_def assms)

lemma generic_structured:
  assumes "usable_content enriched = Some (Structured d)"
  shows "map_generic s flds enriched = Inr d"
  by (simp add: map_generic_def assms)

lemma passed_L04:
  assumes c: "c = copy_if_both flds d ''summary'' (copy_if_both flds d ''subtitle''
            (map_of
              [(''slide_title'', get_or d ''slide_title'' (JStr (title s))),
               (''main_text_content'', get_or d ''main_text_content'' (JStr []))]))"
    and d: "d k = Some v" and f: "flds k \<noteq> None"
    and k: "k = ''slide_title'' \<or> k = ''main_text_content'' \<or> k = ''subtitle'' \<or> k = ''summary''"
  shows "c k = Some v"
  using k
proof (elim disjE)
  assume "k = ''slide_title''" with d f show ?thesis by (simp add: c copy_if_both_apply get_or_def)
next
  assume "k = ''main_text_content''" with d f show ?thesis by (simp add: c copy_if_both_apply get_or_def)
next
  assume "k = ''subtitle''" with d f show ?thesis by (simp add: c copy_if_both_apply get_or_def)
next
  assume "k = ''summary''" with d f show ?thesis by (simp add: c copy_if_both_apply get_or_def)
qed

lemma passed_list:
  assumes c: "c = copy_if_both flds d ''subtitle''
             (map_of [(''slide_title'', get_or d ''slide_title'' (JStr (title s))),
                      (name, get_or d name dflt)])"
    and d: "d k = Some v" and f: "flds k \<noteq> None"
    and k: "k = ''slide_title'' \<or> k = name \<or> k = ''subtitle''"
  shows "c k = Some v"
  using k
proof (elim disjE)
  assume "k = ''slide_title''" with d f show ?thesis by (simp add: c copy_if_both_apply get_or_def)
next
  assume "k = name" with d f show ?thesis by (auto simp: c copy_if_both_apply get_or_def)
next
  assume "k = ''subtitle''" with d f show ?thesis by (simp add: c copy_if_both_apply get_or_def)
qed

lemma passed_L10:
  assumes c: "c = copy_if_both flds d ''subtitle''
            (map_of
              [(''slide_title'', get_or d ''slide_title'' (JStr (title s))),
               (''image'', img),
               (''text_content'', get_or d ''text_content'' (JStr []))])"
    and d: "d k = Some v" and f: "flds k \<noteq> None"
    and k: "k = ''slide_title'' \<or> k = ''text_content'' \<or> k = ''subtitle''"
  shows "c k = Some v"
  using k
proof (elim disjE)
  assume "k = ''slide_title''" with d f show ?thesis by (simp add: c copy_if_both_apply get_or_def)
next
  assume "k = ''text_content''" with d f show ?thesis by (simp add: c copy_if_both_apply get_or_def)
next
  assume "k = ''subtitle''" with d f show ?thesis by (simp add: c copy_if_both_apply get_or_def)
qed

lemma passed_L17:
  assumes c: "c = copy_if_both flds d ''summary'' (copy_if_both flds d ''subtitle''
             (map_of
               [(''slide_title'', get_or d ''slide_title'' (JStr (title s))),
                (''chart_url'', img),
                (''key_insights'', get_or d ''key_insights'' (JList []))]))"
    and d: "d k = Some v" and f: "flds k \<noteq> None"
    and k: "k = ''slide_title'' \<or> k = ''key_insights'' \<or> k = ''subtitle'' \<or> k = ''summary''"
  shows "c k = Some v"
  using k
proof (elim disjE)
  assume "k = ''slide_title''" with d f show ?thesis by (simp add: c copy_if_both_apply get_or_def)
next
  assume "k = ''key_insights''" with d f show ?thesis by (simp add: c copy_if_both_apply get_or_def)
next
  assume "k = ''subtitle''" with d f show ?thesis by (simp add: c copy_if_both_apply get_or_def)
next
  assume "k = ''summary''" with d f show ?thesis by (simp add: c copy_if_both_apply get_or_def)
qed


lemma structured_mapper_passes:
  assumes us: "usable_content enriched = Some (Structured d)"
    and r: "map_content_to_layout s lid flds p enriched today = Inr c"
    and lid: "lid \<in> set structured_layouts"
    and k: "k \<in> set (passed_fields lid)"
    and d: "d k = Some v"
    and f: "flds k \<noteq> None"
  shows "c k = Some v"
proof -
  from lid consider "lid = ''L04''" | "lid = ''L05''" | "lid = ''L06''" | "lid = ''L10''" | "lid = ''L17''"
    unfolding structured_layouts_def by (simp only: set_simps insert_iff empty_iff) blast
  then show ?thesis
  proof cases
    case 1
    from r have "map_text_summary s flds p enriched = Inr c"
      by (simp add: map_content_to_layout_def 1)
    then have c: "c = copy_if_both flds d ''summary'' (copy_if_both flds d ''subtitle''
            (map_of
              [(''slide_title'', get_or d ''slide_title'' (JStr (title s))),
               (''main_text_content'', get_or d ''main_text_content'' (JStr []))]))"
      by (simp add: text_summary_structured [OF us])
    from k have "k = ''slide_title'' \<or> k = ''main_text_content'' \<or> k = ''subtitle'' \<or> k = ''summary''"
      by (simp add: passed_fields_def 1)
    with c d f show ?thesis by (rule passed_L04)
  next
    case 2
    from r have m: "map_bullet_list s flds p enriched = Inr c"
      by (simp add: map_content_to_layout_def 2)
    then obtain a b where "field_limit flds ''bullets'' ''max_items'' = Inr a"
      "field_limit flds ''bullets'' ''max_chars_per_item'' = Inr b"
      unfolding map_bullet_list_def bindE_Inr_iff by blast
    from bullet_list_structured [OF us this] m
    have c: "c = copy_if_both flds d ''subtitle''
             (map_of [(''slide_title'', get_or d ''slide_title'' (JStr (title s))),
                      (''bullets'', get_or d ''bullets'' (JList []))])"
      by simp
    from k have "k = ''slide_title'' \<or> k = ''bullets'' \<or> k = ''subtitle''"
      by (simp add: passed_fields_def 2)
    with c d f show ?thesis by (rule passed_list)
  next
    case 3
    from r have m: "map_numbered_list s flds p enriched = Inr c"
      by (simp add: map_content_to_layout_def 3)
    then obtain a where "field_limit flds ''numbered_items'' ''max_items'' = Inr a"
      unfolding map_numbered_list_def bindE_Inr_iff by blast
    from numbered_list_structured [OF us this] m
    have c: "c = copy_if_both flds d ''subtitle''
             (map_of [(''slide_title'', get_or d ''slide_title'' (JStr (title s))),
                      (''numbered_items'', get_or d ''numbered_items'' (JList []))])"
      by simp
    from k have "k = ''slide_title'' \<or> k = ''numbered_items'' \<or> k = ''subtitle''"
      by (simp add: passed_fields_def 3)
    with c d f show ?thesis by (rule passed_list)
  next
    case 4
    from r have "map_image_text s flds p enriched = Inr c"
      by (simp add: map_content_to_layout_def 4)
    then have c: "c = copy_if_both flds d ''subtitle''
            (map_of
              [(''slide_title'', get_or d ''slide_title'' (JStr (title s))),
               (''image'', JStr (image_placeholder s)),
               (''text_content'', get_or d ''text_content'' (JStr []))])"
      by (simp add: image_text_structured [OF us])
    from k have "k = ''slide_title'' \<or> k = ''text_content'' \<or> k = ''subtitle''"
      by (simp add: passed_fields_def 4)
    with c d f show ?thesis by (rule passed_L10)
  next
    case 5
    from r have m: "map_chart_insights s flds p enriched = Inr c"
      by (simp add: map_content_to_layout_def 5)
    then obtain a b where "field_limit flds ''key_insights'' ''max_items'' = Inr a"
      "field_limit flds ''key_insights'' ''max_chars_per_item'' = Inr b"
      unfolding map_chart_insights_def bindE_Inr_iff by blast
    from chart_insights_structured [OF us this] m
    have c: "c = copy_if_both flds d ''summary'' (copy_if_both flds d ''subtitle''
             (map_of
               [(''slide_title'', get_or d ''slide_title'' (JStr (title s))),
                (''chart_url'', JStr (chart_placeholder s)),
                (''key_insights'', get_or d ''key_insights'' (JList []))]))"
      by simp
    from k have "k = ''slide_title'' \<or> k = ''key_insights'' \<or> k = ''subtitle'' \<or> k = ''summary''"
      by (simp add: passed_fields_def 5)
    with c d f show ?thesis by (rule passed_L17)
  qed
qed

lemma generic_mapper_passes:
  assumes "usable_content enriched = Some (Structured d)" "lid \<notin> set specific_layouts"
  shows "map_content_to_layout s lid flds p enriched today = Inr d"
  using assms(2) unfolding specific_layouts_def
  by (simp add: map_content_to_layout_def generic_structured [OF assms(1)])

lemma structured_mapper_returns:
  assumes us: "usable_content enriched = Some (Structured d)"
    and lid: "lid \<notin> set [''L01'', ''L02'', ''L03'']"
    and lim: "list_limits_present lid flds"
  shows "\<exists>c. map_content_to_layout s lid flds p enriched today = Inr c"
proof -
  consider "lid = ''L04''" | "lid = ''L05''" | "lid = ''L06''" | "lid = ''L10''" | "lid = ''L17''"
    | "lid \<notin> set specific_layouts"
    using lid unfolding specific_layouts_def by (simp only: set_simps insert_iff empty_iff) blast
  then show ?thesis
  proof cases
    case 1
    then show ?thesis by (simp add: map_content_to_layout_def text_summary_structured [OF us])
  next
    case 2
    with lim obtain a b where "field_limit flds ''bullets'' ''max_items'' = Inr a"
      "field_limit flds ''bullets'' ''max_chars_per_item'' = Inr b"
      using field_limit_has_limit by (simp add: list_limits_present_def) blast
    from bullet_list_structured [OF us this] 2 show ?thesis
      by (simp add: map_content_to_layout_def)
  next
    case 3
    with lim obtain a where "field_limit flds ''numbered_items'' ''max_items'' = Inr a"
      using field_limit_has_limit by (simp add: list_limits_present_def) blast
    from numbered_list_structured [OF us this] 3 show ?thesis
      by (simp add: map_content_to_layout_def)
  next
    case 4
    then show ?thesis by (simp add: map_content_to_layout_def image_text_structured [OF us])
  next
    case 5
    with lim obtain a b where "field_limit flds ''key_insights'' ''max_items'' = Inr a"
      "field_limit flds ''key_insights'' ''max_chars_per_item'' = Inr b"
      using field_limit_has_limit by (simp add: list_limits_present_def) blast
    from chart_insights_structured [OF us this] 5 show ?thesis
      by (simp add: map_content_to_layout_def)
  next
    case 6
    from generic_mapper_passes [OF us 6] show ?thesis by blast
  qed
qed

lemma transform_slide_Inr_iff:
  "(transform_slide catalog today s lid p enriched = Inr out) =
     (\<exists>flds c. catalog lid = Some flds
        \<and> map_content_to_layout s lid flds p enriched today = Inr c
        \<and> out = \<lparr>layout = lid, slide_content = c\<rparr>)"
  by (auto simp: transform_slide_def get_schema_def bindE_Inr_iff split: option.splits)

lemma fixed_layouts_ignore_enriched:
  assumes "lid \<in> set [''L01'', ''L02'', ''L03'']"
  shows "transform_slide catalog today s lid p enriched = transform_slide catalog today s lid p None"
  using assms
  by (auto simp: transform_slide_def map_content_to_layout_def map_title_slide_def
      map_section_divider_def map_closing_slide_def)

lemma image_is_placeholder:
  assumes "usable_content enriched = Some (Structured d)"
    "map_content_to_layout s ''L10'' flds p enriched today = Inr c"
  shows "c ''image'' = Some (JStr (image_placeholder s))"
  using assms(2)
  by (auto simp: map_content_to_layout_def image_text_structured [OF assms(1)] copy_if_both_apply)

lemma chart_url_is_placeholder:
  assumes "usable_content enriched = Some (Structured d)"
    "map_content_to_layout s ''L17'' flds p enriched today = Inr c"
  shows "c ''chart_url'' = Some (JStr (chart_placeholder s))"
proof -
  from assms(2) have m: "map_chart_insights s flds p enriched = Inr c"
    by (simp add: map_content_to_layout_def)
  then obtain a b where ab: "field_limit flds ''key_insights'' ''max_items'' = Inr a"
    "field_limit flds ''key_insights'' ''max_chars_per_item'' = Inr b"
    unfolding map_chart_insights_def bindE_Inr_iff by blast
  from m show ?thesis
    by (auto simp: chart_insights_structured [OF assms(1) ab] copy_if_both_apply)
qed

text \<open>
  Claim C2 (amended). Let the enriched slide carry generated text whose content is a
  structured mapping \<open>d\<close>, and let it not be flagged \<open>has_text_failure\<close>. If
  \<open>transform_slide\<close> returns for one of the layouts L04, L05, L06, L10, L17, then every
  field that the layout's mapper takes from the generated content (\<open>passed_fields\<close>) and
  that is present in both \<open>d\<close> and the layout's content schema has in the output exactly
  the value it has in \<open>d\<close>; for a layout without a mapper of its own the output content is
  \<open>d\<close> itself. \<open>transform_slide\<close> does return for these layouts when the catalog knows the
  layout and the schema carries the limits the list mappers read first. The \<open>image\<close> field
  of L10 and the \<open>chart_url\<close> field of L17 are the placeholders computed from the slide,
  whatever \<open>d\<close> holds. The layouts L01, L02 and L03 have no structured branch: for every
  enriched slide, present or absent, their result is the one computed from the slide and
  the presentation alone.
\<close>

theorem structured_content_passes_through:
  assumes "generated_text e = Some g" "content g = Structured d" "\<not> has_text_failure e"
  shows
    "(\<forall>out. transform_slide catalog today s lid p (Some e) = Inr out \<longrightarrow>
        layout out = lid
        \<and> (lid \<in> set structured_layouts \<longrightarrow>
             (\<forall>k v flds. k \<in> set (passed_fields lid) \<and> d k = Some v
                  \<and> catalog lid = Some flds \<and> flds k \<noteq> None \<longrightarrow>
                slide_content out k = Some v))
        \<and> (lid \<notin> set specific_layouts \<longrightarrow> slide_content out = d)
        \<and> (lid = ''L10'' \<longrightarrow> slide_content out ''image'' = Some (JStr (image_placeholder s)))
        \<and> (lid = ''L17'' \<longrightarrow>
             slide_content out ''chart_url'' = Some (JStr (chart_placeholder s))))
     \<and> (\<forall>flds. catalog lid = Some flds \<and> lid \<notin> set [''L01'', ''L02'', ''L03'']
            \<and> list_limits_present lid flds \<longrightarrow>
          (\<exists>out. transform_slide catalog today s lid p (Some e) = Inr out))
     \<and> (lid \<in> set [''L01'', ''L02'', ''L03''] \<longrightarrow>
          (\<forall>enriched. transform_slide catalog today s lid p enriched
                        = transform_slide catalog today s lid p None))"
proof (intro conjI allI impI)
  note us = usable_content_structured [OF assms]
  {
    fix out assume t: "transform_slide catalog today s lid p (Some e) = Inr out"
    then obtain flds c where fc: "catalog lid = Some flds"
      "map_content_to_layout s lid flds p (Some e) today = Inr c"
      "out = \<lparr>layout = lid, slide_content = c\<rparr>"
      unfolding transform_slide_Inr_iff by blast
    show "layout out = lid" using fc(3) by simp
    {
      assume lid: "lid \<in> set structured_layouts"
      fix k v flds'
      assume h: "k \<in> set (passed_fields lid) \<and> d k = Some v \<and> catalog lid = Some flds' \<and> flds' k \<noteq> None"
      with fc(1) have "flds k \<noteq> None" by simp
      from structured_mapper_passes [OF us fc(2) lid _ _ this] h
      show "slide_content out k = Some v" by (simp add: fc(3))
    }
    {
      assume "lid \<notin> set specific_layouts"
      from generic_mapper_passes [OF us this] fc(2) show "slide_content out = d"
        by (simp add: fc(3))
    }
    {
      assume "lid = ''L10''"
      with fc(2) image_is_placeholder [OF us]
      show "slide_content out ''image'' = Some (JStr (image_placeholder s))"
        by (simp add: fc(3))
    }
    {
      assume "lid = ''L17''"
      with fc(2) chart_url_is_placeholder [OF us]
      show "slide_content out ''chart_url'' = Some (JStr (chart_placeholder s))"
        by (simp add: fc(3))
    }
  }
  {
    fix flds
    assume h: "catalog lid = Some flds \<and> lid \<notin> set [''L01'', ''L02'', ''L03'']
            \<and> list_limits_present lid flds"
    then obtain c where "map_content_to_layout s lid flds p (Some e) today = Inr c"
      using structured_mapper_returns [OF us] by blast
    with h show "\<exists>out. transform_slide catalog today s lid p (Some e) = Inr out"
      unfolding transform_slide_Inr_iff by blast
  }
  {
    fix enriched
    assume "lid \<in> set [''L01'', ''L02'', ''L03'']"
    then show "transform_slide catalog today s lid p enriched
                        = transform_slide catalog today s lid p None"
      by (rule fixed_layouts_ignore_enriched)
  }
qed

lemmas example_defs = ex_slide_def ex_presentation_def ex_catalog_def ex_structured_def ex_enriched_def

lemmas mapper_eval = transform_slide_def get_schema_def map_content_to_layout_def content_field_def
  truncate_to_def field_limit_def usable_content_def get_or_def copy_if_both_def bindE_def
  with_subtitle_def key_point_bullets_def slice_to_def nonempty_def

theorem structured_content_passes_through_witness:
  "(\<exists>out. transform_slide ex_catalog (u ''2025-01-01'') ex_slide ''L05'' ex_presentation
             (Some (ex_enriched (Structured ex_structured) False)) = Inr out
      \<and> slide_content out ''bullets''
          = Some (JStr (u ''<ul><li>Cost savings of 30%</li><li>Enhanced scalability</li></ul>''))
      \<and> slide_content out ''subtitle'' = Some (JStr (u ''Our Competitive Advantages'')))
   \<and> (\<exists>out. transform_slide ex_catalog (u ''2025-01-01'') ex_slide ''L10'' ex_presentation
             (Some (ex_enriched (Structured ex_structured) False)) = Inr out
      \<and> slide_content out ''image''
          = Some (JStr (u ''PLACEHOLDER: Professional image related to slide content'')))
   \<and> (\<exists>out. transform_slide ex_catalog (u ''2025-01-01'') ex_slide ''L17'' ex_presentation
             (Some (ex_enriched (Structured ex_structured) False)) = Inr out
      \<and> slide_content out ''chart_url''
          = Some (JStr (u ''PLACEHOLDER: Data visualization for this slide'')))
   \<and> transform_slide ex_catalog (u ''2025-01-01'') ex_slide ''L01'' ex_presentation
         (Some (ex_enriched (Structured ex_structured) False))
       = transform_slide ex_catalog (u ''2025-01-01'') ex_slide ''L01'' ex_presentation None"
proof -
  let ?e = "ex_enriched (Structured ex_structured) False"
  let ?flds = "map_of
         [(''slide_title'', map_of [(''max_chars'', 60::int)]),
          (''subtitle'', map_of [(''max_chars'', 100)]),
          (''bullets'', map_of [(''max_items'', 5), (''max_chars_per_item'', 100)])]"
  let ?flds10 = "map_of
         [(''slide_title'', map_of [(''max_chars'', 60::int)]),
          (''image'', map_of [(''max_chars'', 200)]),
          (''text_content'', map_of [(''max_chars'', 500)])]"
  let ?flds17 = "map_of
         [(''slide_title'', map_of [(''max_chars'', 60::int)]),
          (''chart_url'', map_of [(''max_chars'', 200)]),
          (''key_insights'', map_of [(''max_items'', 4), (''max_chars_per_item'', 80)])]"
  have g: "generated_text ?e = Some \<lparr>content = Structured ex_structured, metadata = []\<rparr>"
    by (simp add: ex_enriched_def)
  have c: "content \<lparr>content = Structured ex_structured, metadata = []\<rparr> = Structured ex_structured"
    by simp
  have f: "\<not> has_text_failure ?e" by (simp add: ex_enriched_def)
  note T = structured_content_passes_through
    [OF g c f, of ex_catalog "u ''2025-01-01''" ex_slide _ ex_presentation]
  have cat: "ex_catalog ''L05'' = Some ?flds" by (simp add: ex_catalog_def)
  have lim: "list_limits_present ''L05'' ?flds"
    by (simp add: list_limits_present_def has_limit_def)
  have not_fixed: "''L05'' \<notin> set [''L01'', ''L02'', ''L03'']" by simp
  from T [of "''L05''", THEN conjunct2, THEN conjunct1] cat lim not_fixed
  obtain out where out: "transform_slide ex_catalog (u ''2025-01-01'') ex_slide ''L05''
      ex_presentation (Some ?e) = Inr out"
    by blast
  have lid: "''L05'' \<in> set structured_layouts" by (simp add: structured_layouts_def)
  from T [of "''L05''", THEN conjunct1] out lid
  have pass: "k \<in> set (passed_fields ''L05'') \<Longrightarrow> ex_structured k = Some v \<Longrightarrow> ?flds k \<noteq> None
      \<Longrightarrow> slide_content out k = Some v" for k v
    using cat by blast
  have b: "slide_content out ''bullets''
      = Some (JStr (u ''<ul><li>Cost savings of 30%</li><li>Enhanced scalability</li></ul>''))"
    by (rule pass) (simp_all add: passed_fields_def ex_structured_def)
  have s: "slide_content out ''subtitle'' = Some (JStr (u ''Our Competitive Advantages''))"
    by (rule pass) (simp_all add: passed_fields_def ex_structured_def)
  from out b s have r5: "\<exists>out. transform_slide ex_catalog (u ''2025-01-01'') ex_slide ''L05''
      ex_presentation (Some ?e) = Inr out
      \<and> slide_content out ''bullets''
          = Some (JStr (u ''<ul><li>Cost savings of 30%</li><li>Enhanced scalability</li></ul>''))
      \<and> slide_content out ''subtitle'' = Some (JStr (u ''Our Competitive Advantages''))"
    by blast
  have cat10: "ex_catalog ''L10'' = Some ?flds10" by (simp add: ex_catalog_def)
  have lim10: "list_limits_present ''L10'' ?flds10" by (simp add: list_limits_present_def)
  have not_fixed10: "''L10'' \<notin> set [''L01'', ''L02'', ''L03'']" by simp
  from T [of "''L10''", THEN conjunct2, THEN conjunct1] cat10 lim10 not_fixed10
  obtain out10 where out10: "transform_slide ex_catalog (u ''2025-01-01'') ex_slide ''L10''
      ex_presentation (Some ?e) = Inr out10"
    by blast
  from T [of "''L10''", THEN conjunct1] out10
  have "slide_content out10 ''image'' = Some (JStr (image_placeholder ex_slide))" by blast
  moreover have "image_placeholder ex_slide
      = u ''PLACEHOLDER: Professional image related to slide content''"
    by (simp add: image_placeholder_def nonempty_def ex_slide_def)
  ultimately have r10: "\<exists>out. transform_slide ex_catalog (u ''2025-01-01'') ex_slide ''L10''
      ex_presentation (Some ?e) = Inr out
      \<and> slide_content out ''image''
          = Some (JStr (u ''PLACEHOLDER: Professional image related to slide content''))"
    using out10 by simp
  have cat17: "ex_catalog ''L17'' = Some ?flds17" by (simp add: ex_catalog_def)
  have lim17: "list_limits_present ''L17'' ?flds17"
    by (simp add: list_limits_present_def has_limit_def)
  have not_fixed17: "''L17'' \<notin> set [''L01'', ''L02'', ''L03'']" by simp
  from T [of "''L17''", THEN conjunct2, THEN conjunct1] cat17 lim17 not_fixed17
  obtain out17 where out17: "transform_slide ex_catalog (u ''2025-01-01'') ex_slide ''L17''
      ex_presentation (Some ?e) = Inr out17"
    by blast
  from T [of "''L17''", THEN conjunct1] out17
  have "slide_content out17 ''chart_url'' = Some (JStr (chart_placeholder ex_slide))" by blast
  moreover have "chart_placeholder ex_slide = u ''PLACEHOLDER: Data visualization for this slide''"
    by (simp add: chart_placeholder_def nonempty_def ex_slide_def)
  ultimately have r17: "\<exists>out. transform_slide ex_catalog (u ''2025-01-01'') ex_slide ''L17''
      ex_presentation (Some ?e) = Inr out
      \<and> slide_content out ''chart_url''
          = Some (JStr (u ''PLACEHOLDER: Data visualization for this slide''))"
    using out17 by simp
  have fixed: "''L01'' \<in> set [''L01'', ''L02'', ''L03'']" by simp
  from T [of "''L01''", THEN conjunct2, THEN conjunct2] fixed
  have r1: "transform_slide ex_catalog (u ''2025-01-01'') ex_slide ''L01'' ex_presentation (Some ?e)
       = transform_slide ex_catalog (u ''2025-01-01'') ex_slide ''L01'' ex_presentation None"
    by blast
  from r5 r10 r17 r1 show ?thesis by (intro conjI)
qed

text \<open>
  As stated for every layout and every shared field, the claim fails: the title mapper
  (L01) never reads the generated content, so a generated \<^verbatim>\<open>main_title\<close> is replaced by the
  presentation's title although the schema of L01 has the field; and the image field of
  L10 is the placeholder although the generated content and the schema both have it.
\<close>

theorem structured_pass_through_counterexample:
  "ex_structured ''main_title'' = Some (JStr (u ''Generated Title''))
   \<and> (\<exists>flds. ex_catalog ''L01'' = Some flds \<and> flds ''main_title'' \<noteq> None)
   \<and> content_field (transform_slide ex_catalog (u ''2025-01-01'') ex_slide ''L01'' ex_presentation
         (Some (ex_enriched (Structured ex_structured) False))) ''main_title''
       = Inr (Some (JStr (u ''Test Presentation'')))
   \<and> ex_structured ''image'' = Some (JStr (u ''https://example.com/a.png''))
   \<and> (\<exists>flds. ex_catalog ''L10'' = Some flds \<and> flds ''image'' \<noteq> None)
   \<and> content_field (transform_slide ex_catalog (u ''2025-01-01'') ex_slide ''L10'' ex_presentation
         (Some (ex_enriched (Structured ex_structured) False))) ''image''
       = Inr (Some (JStr (u ''PLACEHOLDER: Professional image related to slide content'')))"
proof -
  have 1: "ex_structured ''main_title'' = Some (JStr (u ''Generated Title''))"
    by (simp add: ex_structured_def)
  have 2: "\<exists>flds. ex_catalog ''L01'' = Some flds \<and> flds ''main_title'' \<noteq> None"
    by (simp add: ex_catalog_def)
  have 3: "content_field (transform_slide ex_catalog (u ''2025-01-01'') ex_slide ''L01'' ex_presentation
         (Some (ex_enriched (Structured ex_structured) False))) ''main_title''
       = Inr (Some (JStr (u ''Test Presentation'')))"
    by (simp add: mapper_eval map_title_slide_def example_defs truncate_def u_def)
  have 4: "ex_structured ''image'' = Some (JStr (u ''https://example.com/a.png''))"
    by (simp add: ex_structured_def)
  have 5: "\<exists>flds. ex_catalog ''L10'' = Some flds \<and> flds ''image'' \<noteq> None"
    by (simp add: ex_catalog_def)
  have 6: "content_field (transform_slide ex_catalog (u ''2025-01-01'') ex_slide ''L10'' ex_presentation
         (Some (ex_enriched (Structured ex_structured) False))) ''image''
       = Inr (Some (JStr (u ''PLACEHOLDER: Professional image related to slide content'')))"
    by (simp add: mapper_eval map_image_text_def image_placeholder_def example_defs u_def)
  from 1 2 3 4 5 6 show ?thesis by (intro conjI)
qed
section \<open>Legacy parsing of list-shaped fields\<close>

lemma mapE_Inr_iff: "(mapE f xs = Inr ys) = list_all2 (\<lambda>x y. f x = Inr y) xs ys"
proof (induction xs arbitrary: ys)
  case Nil
  show ?case by auto
next
  case (Cons x xs)
  show ?case by (cases ys) (auto simp: bindE_Inr_iff Cons)
qed


lemma mapE_length: "mapE f xs = Inr ys \<Longrightarrow> length ys = length xs"
  by (simp add: mapE_Inr_iff list_all2_lengthD)












lemma numbered_item_capped: "\<exists>item. numbered_item t d = Inr item \<and> capped_item (t, d) item"
proof -
  from truncate_total [of 40 t False] obtain t' where t: "truncate t 40 False = Inr t'" by auto
  from truncate_total [of 150 d False] obtain d' where d: "truncate d 150 False = Inr d'" by auto
  from truncate_length [OF _ t] have "length t' \<le> 40" by simp
  moreover from truncate_length [OF _ d] have "length d' \<le> 150" by simp
  ultimately show ?thesis using t d by (simp add: numbered_item_def capped_item_def)
qed

lemma numbered_item_Inr_capped: "numbered_item t d = Inr item \<Longrightarrow> capped_item (t, d) item"
  using numbered_item_capped [of t d] by auto





lemma length_slice_to_cap: "0 \<le> m \<Longrightarrow> int (length (slice_to xs m)) \<le> m"
  by (simp add: slice_to_nonneg)












section \<open>Properties of the director\<close>

subsection \<open>Content generation\<close>

lemma generate_all_accumulates:
  "generate_all env strawman sid xs (enriched, successful, failed) =
     (enriched @ map (\<lambda>p. \<lparr>original_slide = snd p, enriched_slide_id = slide_id (snd p),
                            generated_text = slide_call_text env sid strawman p,
                            has_text_failure = slide_call_fails env sid strawman p\<rparr>) xs,
      successful + length (filter (\<lambda>p. \<not> slide_call_fails env sid strawman p) xs),
      failed + length (filter (slide_call_fails env sid strawman) xs))"
proof (induction xs arbitrary: enriched successful failed)
  case Nil
  show ?case by simp
next
  case (Cons p xs)
  obtain idx s where p: "p = (idx, s)" by (cases p)
  show ?case
    by (cases "generate_slide_text env s strawman sid (idx + 1)")
      (simp_all add: p Cons slide_call_fails_def slide_call_text_def)
qed

lemma enrich_presentation_eq:
  "enrich_presentation env sid strawman =
     \<lparr>original_strawman = strawman,
      enriched_slides =
        map (\<lambda>p. \<lparr>original_slide = snd p, enriched_slide_id = slide_id (snd p),
                   generated_text = slide_call_text env sid strawman p,
                   has_text_failure = slide_call_fails env sid strawman p\<rparr>)
            (enumerate 0 (slides strawman)),
      generation_metadata =
        \<lparr>total_slides = length (slides strawman),
         successful_slides =
           length (filter (\<lambda>p. \<not> slide_call_fails env sid strawman p) (enumerate 0 (slides strawman))),
         failed_slides = failure_count env sid strawman,
         generation_time_seconds = generation_time env,
         timestamp = utcnow_isoformat env,
         service_used = u ''text_service_v1.0''\<rparr>\<rparr>"
  by (simp add: enrich_presentation_def generate_all_accumulates failure_count_def)

lemma map_snd_enumerate_fun: "map (\<lambda>p. f (snd p)) (enumerate n xs) = map f xs"
  by (induction xs arbitrary: n) simp_all

lemma successes_and_failures:
  "length (filter (\<lambda>p. \<not> P p) xs) = length xs - length (filter P xs)"
  using sum_length_filter_compl [of P xs] by simp

text \<open>
  Claim C3. Let the strawman have \<open>N\<close> slides and let \<open>K\<close> be the number of slides whose
  text-generation call fails (\<open>failure_count\<close>). The enriched presentation that the stage
  builds has exactly \<open>N\<close> entries, the \<open>i\<close>-th one for the \<open>i\<close>-th slide of the strawman
  (the slide itself and its id); an entry is flagged \<open>has_text_failure\<close> exactly when the
  call for its slide failed, and carries the generated text exactly when the call
  returned; the metadata count \<open>N\<close> slides, \<open>K\<close> failed and \<open>N - K\<close> successful ones. The loop
  has no way out other than its end: every slide is attempted whatever happened to the
  others. With the deck builder switched off, the stage returns this enriched
  presentation.
\<close>

theorem content_generation_counts:
  "length (enriched_slides (enrich_presentation env sid strawman)) = length (slides strawman)
   \<and> map original_slide (enriched_slides (enrich_presentation env sid strawman)) = slides strawman
   \<and> map enriched_slide_id (enriched_slides (enrich_presentation env sid strawman))
       = map slide_id (slides strawman)
   \<and> map has_text_failure (enriched_slides (enrich_presentation env sid strawman))
       = map (slide_call_fails env sid strawman) (enumerate 0 (slides strawman))
   \<and> map generated_text (enriched_slides (enrich_presentation env sid strawman))
       = map (slide_call_text env sid strawman) (enumerate 0 (slides strawman))
   \<and> original_strawman (enrich_presentation env sid strawman) = strawman
   \<and> total_slides (generation_metadata (enrich_presentation env sid strawman))
       = length (slides strawman)
   \<and> failed_slides (generation_metadata (enrich_presentation env sid strawman))
       = failure_count env sid strawman
   \<and> successful_slides (generation_metadata (enrich_presentation env sid strawman))
       = length (slides strawman) - failure_count env sid strawman
   \<and> failure_count env sid strawman \<le> length (slides strawman)
   \<and> content_generation (env\<lparr>deck_builder_enabled := False\<rparr>) sid (Some strawman)
       = Inr (EnrichedResponse
               (enrich_presentation (env\<lparr>deck_builder_enabled := False\<rparr>) sid strawman))"
proof -
  have snd_enum: "map snd (enumerate 0 xs) = xs" for xs :: "slide list"
    by (simp add: enumerate_eq_zip)
  have len: "length (enriched_slides (enrich_presentation env sid strawman))
      = length (slides strawman)"
    by (simp add: enrich_presentation_eq)
  have orig: "map original_slide (enriched_slides (enrich_presentation env sid strawman))
      = slides strawman"
    by (simp add: enrich_presentation_eq o_def snd_enum)
  have ids: "map enriched_slide_id (enriched_slides (enrich_presentation env sid strawman))
       = map slide_id (slides strawman)"
    by (simp add: enrich_presentation_eq o_def map_snd_enumerate_fun)
  have flags: "map has_text_failure (enriched_slides (enrich_presentation env sid strawman))
       = map (slide_call_fails env sid strawman) (enumerate 0 (slides strawman))"
    by (simp add: enrich_presentation_eq o_def)
  have texts: "map generated_text (enriched_slides (enrich_presentation env sid strawman))
       = map (slide_call_text env sid strawman) (enumerate 0 (slides strawman))"
    by (simp add: enrich_presentation_eq o_def)
  have straw: "original_strawman (enrich_presentation env sid strawman) = strawman"
    by (simp add: enrich_presentation_eq)
  have tot: "total_slides (generation_metadata (enrich_presentation env sid strawman))
       = length (slides strawman)"
    by (simp add: enrich_presentation_eq)
  have fail: "failed_slides (generation_metadata (enrich_presentation env sid strawman))
       = failure_count env sid strawman"
    by (simp add: enrich_presentation_eq)
  have succ: "successful_slides (generation_metadata (enrich_presentation env sid strawman))
       = length (slides strawman) - failure_count env sid strawman"
    by (simp add: enrich_presentation_eq successes_and_failures failure_count_def)
  have fc: "failure_count env sid strawman \<le> length (slides strawman)"
    using length_filter_le [of "slide_call_fails env sid strawman" "enumerate 0 (slides strawman)"]
    by (simp add: failure_count_def)
  have stage: "content_generation (env\<lparr>deck_builder_enabled := False\<rparr>) sid (Some strawman)
       = Inr (EnrichedResponse
               (enrich_presentation (env\<lparr>deck_builder_enabled := False\<rparr>) sid strawman))"
    by (simp add: content_generation_def Let_def)
  from len orig ids flags texts straw tot fail succ fc stage show ?thesis
    by (intro conjI)
qed

text \<open>Three slides, of which the second one times out.\<close>

theorem content_generation_counts_witness:
  "failure_count ex_env ex_session ex_deck = 1
   \<and> map has_text_failure (enriched_slides (enrich_presentation ex_env ex_session ex_deck))
       = [False, True, False]
   \<and> map enriched_slide_id (enriched_slides (enrich_presentation ex_env ex_session ex_deck))
       = [u ''test-001'', u ''test-002'', u ''test-003'']
   \<and> successful_slides (generation_metadata (enrich_presentation ex_env ex_session ex_deck)) = 2
   \<and> failed_slides (generation_metadata (enrich_presentation ex_env ex_session ex_deck)) = 1"
proof -
  note T = content_generation_counts [of ex_env ex_session ex_deck]
  have fails: "map (slide_call_fails ex_env ex_session ex_deck) (enumerate 0 (slides ex_deck))
      = [False, True, False]"
    by (simp add: slide_call_fails_def generate_slide_text_def ex_env_def ex_deck_def)
  have k: "failure_count ex_env ex_session ex_deck = 1"
    by (simp add: failure_count_def slide_call_fails_def generate_slide_text_def ex_env_def
        ex_deck_def)
  have n: "length (slides ex_deck) = 3" by (simp add: ex_deck_def)
  have ids: "map slide_id (slides ex_deck) = [u ''test-001'', u ''test-002'', u ''test-003'']"
    by (simp add: ex_deck_def ex_slide_def)
  from T fails have 1: "map has_text_failure
      (enriched_slides (enrich_presentation ex_env ex_session ex_deck)) = [False, True, False]"
    by simp
  from T ids have 2: "map enriched_slide_id
      (enriched_slides (enrich_presentation ex_env ex_session ex_deck))
       = [u ''test-001'', u ''test-002'', u ''test-003'']"
    by simp
  from T k n have 3: "successful_slides
      (generation_metadata (enrich_presentation ex_env ex_session ex_deck)) = 2"
    by simp
  from T k have 4: "failed_slides
      (generation_metadata (enrich_presentation ex_env ex_session ex_deck)) = 1"
    by simp
  from k 1 2 3 4 show ?thesis by (intro conjI)
qed

subsection \<open>The mandatory layouts\<close>

text \<open>
  Claim C4. Whatever the slide, the position \<^verbatim>\<open>"first"\<close> gives the title layout L01 and the
  position \<^verbatim>\<open>"last"\<close> the closing layout L03; a slide of type \<^verbatim>\<open>section_divider\<close> at any
  other position gives the divider layout L02. In the three cases the confidence is 1,
  no prompt is sent to the language model, and the result does not depend on the
  environment.
\<close>

theorem mandatory_layouts:
  "select_layout_by_use_case env s ''first'' n
     = (Inr \<lparr>chosen_layout_id = ''L01'', reasoning = u ''First slide - using title layout'',
             confidence = 1\<rparr>, [])
   \<and> select_layout_by_use_case env s ''last'' n
     = (Inr \<lparr>chosen_layout_id = ''L03'', reasoning = u ''Last slide - using closing layout'',
             confidence = 1\<rparr>, [])
   \<and> (slide_type s = section_divider \<and> position \<noteq> ''first'' \<and> position \<noteq> ''last'' \<longrightarrow>
        select_layout_by_use_case env s position n
          = (Inr \<lparr>chosen_layout_id = ''L02'', reasoning = u ''Section divider slide'',
                  confidence = 1\<rparr>, []))"
  by (simp add: select_layout_by_use_case_def)

text \<open>
  In the example environment the model would answer L07 and the layout options cannot
  even be formatted: neither is reached from the mandatory positions.
\<close>

theorem mandatory_layouts_witness:
  "select_layout_by_use_case ex_env (ex_slide\<lparr>slide_type := section_divider\<rparr>) ''middle'' 10
     = (Inr \<lparr>chosen_layout_id = ''L02'', reasoning = u ''Section divider slide'',
             confidence = 1\<rparr>, [])
   \<and> select_layout_by_use_case ex_env ex_slide ''first'' 10
     = (Inr \<lparr>chosen_layout_id = ''L01'', reasoning = u ''First slide - using title layout'',
             confidence = 1\<rparr>, [])
   \<and> select_layout_by_use_case ex_env ex_slide ''middle'' 10 = (Inl (KeyError ''layouts''), [])"
proof -
  have "slide_type (ex_slide\<lparr>slide_type := section_divider\<rparr>) = section_divider
      \<and> ''middle'' \<noteq> ''first'' \<and> ''middle'' \<noteq> ''last''"
    by simp
  with mandatory_layouts [of ex_env "ex_slide\<lparr>slide_type := section_divider\<rparr>" 10 "''middle''"]
  have 1: "select_layout_by_use_case ex_env (ex_slide\<lparr>slide_type := section_divider\<rparr>) ''middle'' 10
     = (Inr \<lparr>chosen_layout_id = ''L02'', reasoning = u ''Section divider slide'',
             confidence = 1\<rparr>, [])"
    by blast
  from mandatory_layouts [of ex_env ex_slide 10]
  have 2: "select_layout_by_use_case ex_env ex_slide ''first'' 10
     = (Inr \<lparr>chosen_layout_id = ''L01'', reasoning = u ''First slide - using title layout'',
             confidence = 1\<rparr>, [])"
    by blast
  have 3: "select_layout_by_use_case ex_env ex_slide ''middle'' 10 = (Inl (KeyError ''layouts''), [])"
    by (simp add: select_layout_by_use_case_def ex_env_def ex_slide_def)
  from 1 2 3 show ?thesis by (intro conjI)
qed

subsection \<open>A rendering failure at the end of the stage\<close>

text \<open>
  When the send of the enriched presentation fails, the \<^verbatim>\<open>except\<close> branch sends the
  strawman with placeholders. If that second send returns, the response carries
  \<^verbatim>\<open>content_generated = False\<close>; if the deck builder refuses every call, the second
  call raises as well, outside any \<^verbatim>\<open>try\<close>, and the exception leaves the stage.
\<close>

lemma send_enriched_outage:
  assumes "\<And>n payload. create_presentation env n payload = Inl e"
  shows "\<exists>e' calls. send_enriched_to_layout_architect env enriched = (Inl e', calls)"
  by (cases "transform_presentation (schema_catalog env) (current_date env)
             (original_strawman enriched) (Some enriched)")
    (simp_all add: send_enriched_to_layout_architect_def assms)

lemma rendering_outage_propagates:
  assumes "deck_builder_enabled env"
    and "\<And>n payload. create_presentation env n payload = Inl e"
    and "transform_presentation (schema_catalog env) (current_date env) strawman None = Inr payload"
  shows "content_generation env sid (Some strawman) = Inl e"
proof -
  from send_enriched_outage [OF assms(2)] obtain e' calls
    where "send_enriched_to_layout_architect env (enrich_presentation env sid strawman)
             = (Inl e', calls)" by blast
  with assms show ?thesis by (simp add: content_generation_def Let_def)
qed

lemma rendering_fallback_response:
  assumes "deck_builder_enabled env"
    and "send_enriched_to_layout_architect env (enrich_presentation env sid strawman) = (Inl e, calls)"
    and "transform_presentation (schema_catalog env) (current_date env) strawman None = Inr payload"
    and "create_presentation env calls payload = Inr api_response"
    and "api_response ''url'' = Some url"
  shows "content_generation env sid (Some strawman) =
           Inr (UrlResponse
                  [(''type'', JStr (u ''presentation_url'')),
                   (''url'', JStr (get_full_url env url)),
                   (''slide_count'', JInt (int (length (slides strawman)))),
                   (''content_generated'', JBool False),
                   (''message'', JStr (u ''Presentation created (fallback mode): ''
                                       @ get_full_url env url))])"
  using assms by (simp add: content_generation_def Let_def response_url_def)

lemmas transform_eval = transform_presentation_def enriched_at_def effective_layout_def
  map_bullet_list_def truncate_def u_def

text \<open>
  Claim C8 at a failing input: a session with a strawman, the deck builder switched on
  and refusing every call. The claim says that the stage does not fail and answers with
  \<^verbatim>\<open>content_generated = False\<close>. The stage raises the exception of the second call. (The
  stages \<^verbatim>\<open>GENERATE_STRAWMAN\<close> and \<^verbatim>\<open>REFINE_STRAWMAN\<close> wrap their only send in \<^verbatim>\<open>try\<close> and
  return the strawman when it fails.)
\<close>

theorem content_generation_rendering_outage:
  "deck_builder_enabled ex_env
   \<and> (\<exists>payload. transform_presentation (schema_catalog ex_env) (current_date ex_env)
                    ex_presentation None = Inr payload)
   \<and> content_generation ex_env ex_session (Some ex_presentation)
       = Inl (ServiceError (u ''Connection refused''))"
proof -
  have en: "deck_builder_enabled ex_env" by (simp add: ex_env_def)
  have out: "create_presentation ex_env n payload = Inl (ServiceError (u ''Connection refused''))"
    for n payload
    by (simp add: ex_env_def)
  have "\<exists>payload. transform_presentation ex_catalog (u ''2025-01-01'') ex_presentation None
      = Inr payload"
    by (simp add: transform_eval mapper_eval example_defs)
  then obtain payload where tp: "transform_presentation (schema_catalog ex_env) (current_date ex_env)
                    ex_presentation None = Inr payload"
    by (auto simp: ex_env_def)
  from rendering_outage_propagates [OF en out tp]
  have "content_generation ex_env ex_session (Some ex_presentation)
       = Inl (ServiceError (u ''Connection refused''))" .
  with en tp show ?thesis by blast
qed

end
